theory Spec2Isabelle
  imports Complex_Main
begin

section \<open>Text and regular expressions\<close>

text \<open>
  A JavaScript string is a sequence of UTF-16 code units; \<open>length\<close> counts code units.
  A text is modelled as the list of its code units. String literals of the source are
  written as Isabelle strings and turned into code units by \<open>units\<close>.
\<close>

type_synonym jsstring = "nat list"

definition units :: "string \<Rightarrow> jsstring" where
  "units s = map of_char s"

text \<open>
  \<open>WhiteSpace\<close> and \<open>LineTerminator\<close> code units of ECMAScript: what
  \<open>String.prototype.trim\<close> strips and what \<open>\s\<close> matches.
\<close>

definition is_space :: "nat \<Rightarrow> bool" where
  "is_space u \<longleftrightarrow>
     (9 \<le> u \<and> u \<le> 13) \<or> u = 32 \<or> u = 160 \<or> u = 5760 \<or> (8192 \<le> u \<and> u \<le> 8202) \<or>
     u = 8232 \<or> u = 8233 \<or> u = 8239 \<or> u = 8287 \<or> u = 12288 \<or> u = 65279"

definition is_digit :: "nat \<Rightarrow> bool" where
  "is_digit u \<longleftrightarrow> 48 \<le> u \<and> u \<le> 57"

definition is_upper :: "nat \<Rightarrow> bool" where
  "is_upper u \<longleftrightarrow> 65 \<le> u \<and> u \<le> 90"

definition is_lower :: "nat \<Rightarrow> bool" where
  "is_lower u \<longleftrightarrow> 97 \<le> u \<and> u \<le> 122"

text \<open>The word characters of \<open>\w\<close> and \<open>\b\<close>: \<open>[A-Za-z0-9_]\<close>.\<close>

definition is_word :: "nat \<Rightarrow> bool" where
  "is_word u \<longleftrightarrow> is_upper u \<or> is_lower u \<or> is_digit u \<or> u = 95"

text \<open>\<open>.\<close> matches every code unit except the line terminators.\<close>

definition is_line_terminator :: "nat \<Rightarrow> bool" where
  "is_line_terminator u \<longleftrightarrow> u = 10 \<or> u = 13 \<or> u = 8232 \<or> u = 8233"

text \<open>
  \<open>Canonicalize\<close> of a pattern with the \<open>i\<close> flag (and no \<open>u\<close> flag) upper-cases a
  code unit, but never maps a code unit from 128 on to one below 128. Every letter written
  in the patterns of this program is ASCII, so a code unit from 128 on never equals a
  canonicalized pattern character: it is left as it is here.
\<close>

definition canonicalize :: "bool \<Rightarrow> nat \<Rightarrow> nat" where
  "canonicalize ic u = (if ic \<and> is_lower u then u - 32 else u)"

definition trim :: "jsstring \<Rightarrow> jsstring" where
  "trim s = rev (dropWhile is_space (rev (dropWhile is_space s)))"

text \<open>
  The regular expressions of \<open>patterns.ts\<close> use: literal text, the classes \<open>\d\<close>,
  \<open>\w\<close>, \<open>\s\<close> and bracket classes, each possibly under a quantifier (every quantifier
  of the source is on a single-character atom), the assertion \<open>\b\<close>, one negative
  lookahead, groups of alternatives, and once a captured \<open>.\<close> with a quantified
  backreference to it.
\<close>

datatype citem = CDigit | CWord | CSpace | CRange char char | CChar char

datatype re =
    Lit jsstring
  | Many "citem list" nat "nat option"
  | WordB
  | NegAhead re
  | Seq re re
  | Alt re re
  | DotBackref nat

text \<open>
  \<open>Many cs lo hi\<close> is the class \<open>[cs]{lo,hi}\<close> (\<open>hi = None\<close>: unbounded);
  \<open>DotBackref n\<close> is \<open>(.)\1{n,}\<close>.
\<close>

fun in_item :: "bool \<Rightarrow> citem \<Rightarrow> nat \<Rightarrow> bool" where
  "in_item ic CDigit u = is_digit u"
| "in_item ic CWord u = is_word u"
| "in_item ic CSpace u = is_space u"
| "in_item ic (CRange a b) u =
     ((of_char a \<le> u \<and> u \<le> of_char b) \<or>
      (ic \<and> (is_lower u \<and> of_char a \<le> u - 32 \<and> u - 32 \<le> of_char b \<or>
             is_upper u \<and> of_char a \<le> u + 32 \<and> u + 32 \<le> of_char b)))"
| "in_item ic (CChar a) u = (canonicalize ic (of_char a) = canonicalize ic u)"

definition in_class :: "bool \<Rightarrow> citem list \<Rightarrow> nat \<Rightarrow> bool" where
  "in_class ic cs u = list_ex (\<lambda>c. in_item ic c u) cs"

text \<open>
  A cursor is a position in the text: the code unit before it (if any) and the code
  units from it on. A matcher returns the cursors at which a match starting at the given
  cursor can end. \<open>String.prototype.match\<close> is only tested for a match or \<open>null\<close>
  by this program, so the choice among several matches (greedy first) is not modelled.
\<close>

type_synonym cursor = "nat option \<times> nat list"

fun lit :: "bool \<Rightarrow> jsstring \<Rightarrow> cursor \<Rightarrow> cursor list" where
  "lit ic [] c = [c]"
| "lit ic (a # w) (p, []) = []"
| "lit ic (a # w) (p, x # xs) =
     (if canonicalize ic a = canonicalize ic x then lit ic w (Some x, xs) else [])"

fun many :: "(nat \<Rightarrow> bool) \<Rightarrow> nat \<Rightarrow> nat option \<Rightarrow> nat \<Rightarrow> cursor \<Rightarrow> cursor list" where
  "many P lo hi k (p, []) = (if lo \<le> k then [(p, [])] else [])"
| "many P lo hi k (p, x # xs) =
     (if lo \<le> k then [(p, x # xs)] else []) @
     (if P x \<and> (case hi of None \<Rightarrow> True | Some h \<Rightarrow> k < h)
      then many P lo hi (Suc k) (Some x, xs) else [])"

definition at_word_boundary :: "cursor \<Rightarrow> bool" where
  "at_word_boundary c =
     ((case fst c of None \<Rightarrow> False | Some u \<Rightarrow> is_word u) \<noteq>
      (case snd c of [] \<Rightarrow> False | x # xs \<Rightarrow> is_word x))"

fun dot_backref :: "nat \<Rightarrow> cursor \<Rightarrow> cursor list" where
  "dot_backref n (p, []) = []"
| "dot_backref n (p, x # xs) =
     (if is_line_terminator x then [] else many (\<lambda>u. u = x) n None 0 (Some x, xs))"

primrec ends :: "re \<Rightarrow> bool \<Rightarrow> cursor \<Rightarrow> cursor list" where
  "ends (Lit w) ic c = lit ic w c"
| "ends (Many cs lo hi) ic c = many (in_class ic cs) lo hi 0 c"
| "ends WordB ic c = (if at_word_boundary c then [c] else [])"
| "ends (NegAhead r) ic c = (if ends r ic c = [] then [c] else [])"
| "ends (Seq r1 r2) ic c = concat (map (ends r2 ic) (ends r1 ic c))"
| "ends (Alt r1 r2) ic c = ends r1 ic c @ ends r2 ic c"
| "ends (DotBackref n) ic c = dot_backref n c"

text \<open>A pattern matches a text when a match starts at some position of it.\<close>

fun search :: "re \<Rightarrow> bool \<Rightarrow> nat option \<Rightarrow> nat list \<Rightarrow> bool" where
  "search r ic p [] = (ends r ic (p, []) \<noteq> [])"
| "search r ic p (x # xs) =
     (if ends r ic (p, x # xs) \<noteq> [] then True else search r ic (Some x) xs)"

text \<open>A \<open>RegExp\<close> object: its pattern and its \<open>i\<close> flag.\<close>

type_synonym RegExp = "re \<times> bool"

definition str_match :: "jsstring \<Rightarrow> RegExp \<Rightarrow> bool" where
  "str_match text pattern = search (fst pattern) (snd pattern) None text"

section \<open>The pattern catalog (\<open>patterns.ts\<close>)\<close>

text \<open>
  Each regular expression of the source is written out below with these abbreviations:
  \<open>lits w\<close> is the literal text \<open>w\<close>, \<open>phrase w\<close> the pattern \<open>/w/i\<close>,
  \<open>word_plus\<close> is \<open>\w+\<close>, \<open>digits n\<close> is \<open>\d{n}\<close>, \<open>sep_opt\<close> is \<open>[\s-]?\<close>,
  \<open>seqs\<close> a sequence and \<open>alts\<close> a group of alternatives. The second component of a
  pattern is its \<open>i\<close> flag.
\<close>

definition lits :: "string \<Rightarrow> re" where
  "lits w = Lit (units w)"

definition phrase :: "string \<Rightarrow> RegExp" where
  "phrase w = (lits w, True)"

definition word_plus :: re where
  "word_plus = Many [CWord] 1 None"

definition digits :: "nat \<Rightarrow> re" where
  "digits n = Many [CDigit] n (Some n)"

fun seqs :: "re list \<Rightarrow> re" where
  "seqs [] = Lit []"
| "seqs [r] = r"
| "seqs (r # rs) = Seq r (seqs rs)"

fun alts :: "re list \<Rightarrow> re" where
  "alts [] = Lit []"
| "alts [r] = r"
| "alts (r # rs) = Alt r (alts rs)"

definition SPAM_phrases :: "RegExp list" where
  "SPAM_phrases =
     [phrase ''click here'',
      phrase ''free money'',
      phrase ''make money fast'',
      phrase ''guaranteed profit'',
      phrase ''limited time offer'',
      phrase ''act now'',
      phrase ''no risk'',
      phrase ''get rich quick'',
      phrase ''work from home'',
      (seqs [lits ''earn '', Many [CChar (CHR ''$'')] 0 (Some 1), Many [CDigit] 1 None], True)]"

definition SPAM_repetition :: RegExp where
  "SPAM_repetition = (DotBackref 4, False)"

definition SPAM_excessiveCaps :: RegExp where
  "SPAM_excessiveCaps =
     (seqs [WordB, Many [CRange (CHR ''A'') (CHR ''Z''), CSpace] 10 None, WordB], False)"

definition SPAM_suspiciousUrls :: "RegExp list" where
  "SPAM_suspiciousUrls = [phrase ''bit.ly'', phrase ''tinyurl'', phrase ''short.link'']"

definition HATE_SPEECH_slurs :: "RegExp list" where
  "HATE_SPEECH_slurs =
     [(seqs [WordB, alts [lits ''hate'', lits ''stupid'', lits ''idiot'', lits ''moron''], WordB],
       True)]"

definition HATE_SPEECH_discriminatory :: "RegExp list" where
  "HATE_SPEECH_discriminatory =
     [(seqs [lits ''all '', word_plus, lits '' are '', word_plus], True),
      (seqs [word_plus, lits '' people are '', word_plus], True)]"

definition HARASSMENT_threats :: "RegExp list" where
  "HARASSMENT_threats =
     [(seqs [lits ''i will '', word_plus, lits '' you''], True),
      (seqs [lits ''you should '', word_plus, lits '' yourself''], True),
      phrase ''kill yourself'',
      phrase ''die'']"

definition HARASSMENT_intimidation :: "RegExp list" where
  "HARASSMENT_intimidation =
     [phrase ''watch your back'',
      phrase (''you'' @ [CHR 0x27] @ ''re dead''),
      phrase ''i know where you live'']"

definition VIOLENCE_explicit :: "RegExp list" where
  "VIOLENCE_explicit =
     [(seqs [lits ''kill '', NegAhead (lits ''yourself''), word_plus], True),
      (seqs [lits ''murder '', word_plus], True),
      (seqs [lits ''beat '', word_plus, lits '' up''], True),
      (seqs [lits ''punch '', word_plus], True)]"

definition VIOLENCE_weapons :: "RegExp list" where
  "VIOLENCE_weapons =
     [(seqs [WordB, alts [lits ''gun'', lits ''knife'', lits ''bomb'', lits ''weapon''], WordB],
       True)]"

definition ADULT_CONTENT_explicit :: "RegExp list" where
  "ADULT_CONTENT_explicit =
     [(seqs [WordB, alts [lits ''sex'', lits ''porn'', lits ''nude'', lits ''naked''], WordB], True),
      phrase ''adult content'']"

definition MISINFORMATION_conspiracy :: "RegExp list" where
  "MISINFORMATION_conspiracy =
     [phrase ''conspiracy'', phrase ''government cover'', phrase ''fake news'']"

definition MISINFORMATION_medical :: "RegExp list" where
  "MISINFORMATION_medical =
     [(seqs [lits ''cure for '', word_plus], True),
      phrase ''miracle drug'',
      phrase (''doctors don'' @ [CHR 0x27] @ ''t want'')]"

definition PHISHING_urgency :: "RegExp list" where
  "PHISHING_urgency =
     [phrase ''urgent action required'',
      phrase ''verify your account'',
      phrase ''suspended account'',
      phrase ''click to verify'']"

definition PHISHING_suspicious :: "RegExp list" where
  "PHISHING_suspicious =
     [phrase ''enter your password'',
      phrase ''confirm your details'',
      phrase ''update your information'']"

definition sep_opt :: re where
  "sep_opt = Many [CSpace, CChar (CHR ''-'')] 0 (Some 1)"

definition PERSONAL_INFO_ssn :: RegExp where
  "PERSONAL_INFO_ssn =
     (seqs [WordB, digits 3, lits ''-'', digits 2, lits ''-'', digits 4, WordB], False)"

definition PERSONAL_INFO_phone :: RegExp where
  "PERSONAL_INFO_phone =
     (seqs [WordB, digits 3, lits ''-'', digits 3, lits ''-'', digits 4, WordB], False)"

definition PERSONAL_INFO_email :: RegExp where
  "PERSONAL_INFO_email =
     (seqs [WordB,
            Many [CRange (CHR ''A'') (CHR ''Z''), CRange (CHR ''a'') (CHR ''z''),
                  CRange (CHR ''0'') (CHR ''9''), CChar (CHR ''.''), CChar (CHR ''_''),
                  CChar (CHR ''%''), CChar (CHR ''+''), CChar (CHR ''-'')] 1 None,
            lits ''@'',
            Many [CRange (CHR ''A'') (CHR ''Z''), CRange (CHR ''a'') (CHR ''z''),
                  CRange (CHR ''0'') (CHR ''9''), CChar (CHR ''.''), CChar (CHR ''-'')] 1 None,
            lits ''.'',
            Many [CRange (CHR ''A'') (CHR ''Z''), CChar (CHR ''|''),
                  CRange (CHR ''a'') (CHR ''z'')] 2 None,
            WordB], False)"

definition PERSONAL_INFO_creditCard :: RegExp where
  "PERSONAL_INFO_creditCard =
     (seqs [WordB, digits 4, sep_opt, digits 4, sep_opt, digits 4, sep_opt, digits 4, WordB],
      False)"

datatype FlagReason =
    spam | hate_speech | harassment | violence | adult_content | misinformation
  | copyright_violation | phishing | malware | inappropriate_language | personal_information

text \<open>
  \<open>PATTERN_MAP\<close>, as the list of its entries in the order \<open>Object.entries\<close> yields
  them: the order in which the keys are written in the object literal.
\<close>

definition PATTERN_MAP :: "(FlagReason \<times> RegExp list) list" where
  "PATTERN_MAP =
     [(spam, SPAM_phrases @ [SPAM_repetition] @ [SPAM_excessiveCaps] @ SPAM_suspiciousUrls),
      (hate_speech, HATE_SPEECH_slurs @ HATE_SPEECH_discriminatory),
      (harassment, HARASSMENT_threats @ HARASSMENT_intimidation),
      (violence, VIOLENCE_explicit @ VIOLENCE_weapons),
      (adult_content, ADULT_CONTENT_explicit),
      (misinformation, MISINFORMATION_conspiracy @ MISINFORMATION_medical),
      (phishing, PHISHING_urgency @ PHISHING_suspicious),
      (copyright_violation, []),
      (malware, []),
      (inappropriate_language, HATE_SPEECH_slurs),
      (personal_information,
         [PERSONAL_INFO_ssn, PERSONAL_INFO_phone, PERSONAL_INFO_email,
          PERSONAL_INFO_creditCard])]"

text \<open>\<open>PATTERN_MAP[reason]\<close>: the rules of one category.\<close>

definition patternsOf :: "FlagReason \<Rightarrow> RegExp list" where
  "patternsOf reason = (case map_of PATTERN_MAP reason of None \<Rightarrow> [] | Some ps \<Rightarrow> ps)"

section \<open>The data model (\<open>types.ts\<close>)\<close>

datatype ContentType = text_content | image_content | video_content | link_content

datatype SeverityLevel = low | medium | high | critical

text \<open>
  The optional fields of the source are options. \<open>metadata\<close> is never read by the
  analysis and is left out. A JavaScript number (\<open>previousFlags\<close>, a confidence) is an
  exact rational here: the rounding of double-precision arithmetic is not modelled.
\<close>

record ContentItem =
  content_id :: jsstring
  content_userId :: jsstring
  content_type :: ContentType
  content_text :: "jsstring option"
  content_url :: "jsstring option"

record AnalysisContext =
  platform :: "jsstring option"
  audience :: "jsstring option"
  previousFlags :: "rat option"

record ContentFlaggingRequest =
  request_content :: ContentItem
  request_context :: "AnalysisContext option"

record FlagResult =
  isFlagged :: bool
  severity :: SeverityLevel
  reasons :: "FlagReason list"
  confidence :: rat
  details :: "string option"

section \<open>The analysis (\<open>content-flagging.ts\<close>)\<close>

definition createCleanResult :: FlagResult where
  "createCleanResult =
     \<lparr>isFlagged = False, severity = low, reasons = [], confidence = 0, details = None\<rparr>"

text \<open>
  The match objects are only counted by the program: the model keeps, for each pattern
  that matches, the pattern itself.
\<close>

definition findPatternMatches :: "jsstring \<Rightarrow> RegExp list \<Rightarrow> RegExp list" where
  "findPatternMatches text patterns = filter (str_match text) patterns"

definition findPersonalInfoPatterns :: "jsstring \<Rightarrow> RegExp list" where
  "findPersonalInfoPatterns text =
     findPatternMatches text
       [(seqs [WordB, digits 3, lits ''-'', digits 2, lits ''-'', digits 4, WordB], False),
        (seqs [WordB, digits 3, lits ''-'', digits 3, lits ''-'', digits 4, WordB], False),
        (seqs [WordB,
               Many [CRange (CHR ''A'') (CHR ''Z''), CRange (CHR ''a'') (CHR ''z''),
                     CRange (CHR ''0'') (CHR ''9''), CChar (CHR ''.''), CChar (CHR ''_''),
                     CChar (CHR ''%''), CChar (CHR ''+''), CChar (CHR ''-'')] 1 None,
               lits ''@'',
               Many [CRange (CHR ''A'') (CHR ''Z''), CRange (CHR ''a'') (CHR ''z''),
                     CRange (CHR ''0'') (CHR ''9''), CChar (CHR ''.''), CChar (CHR ''-'')] 1 None,
               lits ''.'',
               Many [CRange (CHR ''A'') (CHR ''Z''), CChar (CHR ''|''),
                     CRange (CHR ''a'') (CHR ''z'')] 2 None,
               WordB], False),
        (seqs [WordB, digits 4, sep_opt, digits 4, sep_opt, digits 4, sep_opt, digits 4, WordB],
         False)]"

text \<open>
  \<open>context?.previousFlags && context.previousFlags > 3\<close>: the context and the field
  are present, the number is truthy (not 0) and greater than 3.
\<close>

definition repeatOffender :: "AnalysisContext option \<Rightarrow> bool" where
  "repeatOffender ctx =
     (case ctx of None \<Rightarrow> False
      | Some c \<Rightarrow> (case previousFlags c of None \<Rightarrow> False | Some n \<Rightarrow> n \<noteq> 0 \<and> n > 3))"

definition calculateConfidence ::
  "RegExp list \<Rightarrow> jsstring \<Rightarrow> AnalysisContext option \<Rightarrow> rat" where
  "calculateConfidence matches text ctx =
     (if length matches = 0 then 0
      else
        let c0 = min (of_nat (length matches) * 0.2) 0.8;
            textLength = length text;
            c1 = (if textLength < 100 then c0 + 0.2
                  else if textLength > 1000 then c0 - 0.1 else c0);
            c2 = (if repeatOffender ctx then c1 + 0.1 else c1)
        in min c2 1.0)"

fun severityMap :: "FlagReason \<Rightarrow> SeverityLevel" where
  "severityMap spam = low"
| "severityMap hate_speech = high"
| "severityMap harassment = high"
| "severityMap violence = critical"
| "severityMap adult_content = medium"
| "severityMap misinformation = medium"
| "severityMap copyright_violation = medium"
| "severityMap phishing = high"
| "severityMap malware = critical"
| "severityMap inappropriate_language = low"
| "severityMap personal_information = high"

definition getSeverityForReason :: "FlagReason \<Rightarrow> rat \<Rightarrow> SeverityLevel" where
  "getSeverityForReason reason c =
     (let baseSeverity = severityMap reason in
      if reason = harassment then high
      else if c > 0.8 then
        (if baseSeverity = low then medium
         else if baseSeverity = medium then high
         else if baseSeverity = high then critical
         else baseSeverity)
      else baseSeverity)"

fun severityIndex :: "SeverityLevel \<Rightarrow> nat" where
  "severityIndex low = 0"
| "severityIndex medium = 1"
| "severityIndex high = 2"
| "severityIndex critical = 3"

definition getHigherSeverity :: "SeverityLevel \<Rightarrow> SeverityLevel \<Rightarrow> SeverityLevel" where
  "getHigherSeverity a b = (if severityIndex a > severityIndex b then a else b)"

definition platformIs :: "AnalysisContext option \<Rightarrow> string \<Rightarrow> bool" where
  "platformIs ctx w = (case ctx of None \<Rightarrow> False | Some c \<Rightarrow> platform c = Some (units w))"

definition audienceIs :: "AnalysisContext option \<Rightarrow> string \<Rightarrow> bool" where
  "audienceIs ctx w = (case ctx of None \<Rightarrow> False | Some c \<Rightarrow> audience c = Some (units w))"

definition applyContextAdjustments :: "rat \<Rightarrow> nat \<Rightarrow> AnalysisContext option \<Rightarrow> rat" where
  "applyContextAdjustments c reasonCount ctx =
     (let a0 = (if reasonCount > 1 then c + 0.1 * of_nat (reasonCount - 1) else c);
          a1 = (if repeatOffender ctx then max (a0 + 0.2) 0.4 else a0);
          a2 = (if platformIs ctx ''twitter'' then a1 + 0.05 else a1);
          a3 = (if audienceIs ctx ''children'' then a2 + 0.1 else a2)
      in min a3 1.0)"

fun reasonName :: "FlagReason \<Rightarrow> string" where
  "reasonName spam = ''spam''"
| "reasonName hate_speech = ''hate_speech''"
| "reasonName harassment = ''harassment''"
| "reasonName violence = ''violence''"
| "reasonName adult_content = ''adult_content''"
| "reasonName misinformation = ''misinformation''"
| "reasonName copyright_violation = ''copyright_violation''"
| "reasonName phishing = ''phishing''"
| "reasonName malware = ''malware''"
| "reasonName inappropriate_language = ''inappropriate_language''"
| "reasonName personal_information = ''personal_information''"

text \<open>\<open>Array.prototype.join\<close> on a list of strings.\<close>

fun join :: "string \<Rightarrow> string list \<Rightarrow> string" where
  "join sep [] = []"
| "join sep [x] = x"
| "join sep (x # y # ys) = x @ sep @ join sep (y # ys)"

text \<open>\<open>Math.round\<close>: the nearest integer, a half rounded up.\<close>

definition math_round :: "rat \<Rightarrow> int" where
  "math_round x = \<lfloor>x + 1 / 2\<rfloor>"

text \<open>An integer as a template literal prints it: in decimal.\<close>

fun show_nat :: "nat \<Rightarrow> string" where
  "show_nat n =
     (if n < 10 then [''0123456789'' ! n]
      else show_nat (n div 10) @ [''0123456789'' ! (n mod 10)])"

declare show_nat.simps [simp del]

definition show_int :: "int \<Rightarrow> string" where
  "show_int i = (if i < 0 then ''-'' @ show_nat (nat (- i)) else show_nat (nat i))"

definition generateDetails :: "FlagReason list \<Rightarrow> rat \<Rightarrow> string" where
  "generateDetails rs c =
     (if length rs = 0 then ''Content appears to be clean''
      else
        let reasonText = join '', '' (map reasonName rs);
            confidencePercent = math_round (c * 100)
        in ''Detected '' @ reasonText @ '' with '' @ show_int confidencePercent @
           ''% confidence'')"

text \<open>
  The loop over the entries of \<open>PATTERN_MAP\<close>. Its state is the three variables it
  updates: \<open>detectedReasons\<close>, \<open>totalConfidence\<close> and \<open>maxSeverity\<close>.
\<close>

type_synonym scan_state = "FlagReason list \<times> rat \<times> SeverityLevel"

fun checkCategories ::
  "jsstring \<Rightarrow> AnalysisContext option \<Rightarrow> (FlagReason \<times> RegExp list) list \<Rightarrow>
   scan_state \<Rightarrow> scan_state" where
  "checkCategories combinedText ctx [] st = st"
| "checkCategories combinedText ctx ((flagReason, patterns) # rest)
     (detectedReasons, totalConfidence, maxSeverity) =
     (let matches = findPatternMatches combinedText patterns in
      if length matches > 0 then
        (let c = calculateConfidence matches combinedText ctx;
             sev = getSeverityForReason flagReason c
         in checkCategories combinedText ctx rest
              (detectedReasons @ [flagReason], totalConfidence + c,
               getHigherSeverity maxSeverity sev))
      else checkCategories combinedText ctx rest
             (detectedReasons, totalConfidence, maxSeverity))"

text \<open>The dedicated personal-information check that follows the loop.\<close>

definition checkPersonalInfo :: "jsstring \<Rightarrow> scan_state \<Rightarrow> scan_state" where
  "checkPersonalInfo combinedText st =
     (case st of (detectedReasons, totalConfidence, maxSeverity) \<Rightarrow>
        if length (findPersonalInfoPatterns combinedText) > 0
        then (detectedReasons @ [personal_information], totalConfidence + 0.9,
              getHigherSeverity maxSeverity high)
        else st)"

text \<open>A string is falsy when it is absent or empty.\<close>

definition falsy :: "jsstring option \<Rightarrow> bool" where
  "falsy s = (case s of None \<Rightarrow> True | Some w \<Rightarrow> w = [])"

definition orEmpty :: "jsstring option \<Rightarrow> jsstring" where
  "orEmpty s = (case s of None \<Rightarrow> [] | Some w \<Rightarrow> w)"

definition combinedTextOf :: "ContentItem \<Rightarrow> jsstring" where
  "combinedTextOf c = trim (orEmpty (content_text c) @ units '' '' @ orEmpty (content_url c))"

definition analyzeContent :: "ContentFlaggingRequest \<Rightarrow> FlagResult" where
  "analyzeContent request =
     (let c = request_content request; ctx = request_context request in
      if falsy (content_text c) \<and> falsy (content_url c) then createCleanResult
      else
        let combinedText = combinedTextOf c in
        case checkPersonalInfo combinedText
               (checkCategories combinedText ctx PATTERN_MAP ([], 0, low)) of
          (detectedReasons, totalConfidence, maxSeverity) \<Rightarrow>
            let adjustedConfidence =
                  applyContextAdjustments totalConfidence (length detectedReasons) ctx
            in \<lparr>isFlagged = (adjustedConfidence > 0.3 \<or> length detectedReasons > 0),
                severity = maxSeverity,
                reasons = detectedReasons,
                confidence = min adjustedConfidence 1.0,
                details = Some (generateDetails detectedReasons adjustedConfidence)\<rparr>)"

text \<open>
  Requests as the unit tests build them: an item with the given \<open>text\<close> and \<open>url\<close>
  (each possibly absent) and an optional context; \<open>textRequest\<close> is a text item with no
  \<open>url\<close>.
\<close>

definition itemRequest ::
  "jsstring option \<Rightarrow> jsstring option \<Rightarrow> AnalysisContext option \<Rightarrow> ContentFlaggingRequest" where
  "itemRequest t u ctx =
     \<lparr>request_content =
        \<lparr>content_id = units ''content_1'', content_userId = units ''user_1'',
         content_type = text_content, content_text = t, content_url = u\<rparr>,
      request_context = ctx\<rparr>"

definition textRequest :: "jsstring \<Rightarrow> AnalysisContext option \<Rightarrow> ContentFlaggingRequest" where
  "textRequest t ctx = itemRequest (Some t) None ctx"

text \<open>A context that only gives the number of previous flags.\<close>

definition flagsOnly :: "rat \<Rightarrow> AnalysisContext" where
  "flagsOnly n = \<lparr>platform = None, audience = None, previousFlags = Some n\<rparr>"

text \<open>
  The state of the three loop variables when the context adjustments are applied: after the
  loop over the catalog and the personal-information check.
\<close>

definition scanResult :: "jsstring \<Rightarrow> AnalysisContext option \<Rightarrow> scan_state" where
  "scanResult t ctx = checkPersonalInfo t (checkCategories t ctx PATTERN_MAP ([], 0, low))"

section \<open>Properties of the scoring functions\<close>

lemma calculateConfidence_nonneg: "0 \<le> calculateConfidence ms t ctx"
  by (cases ms) (simp_all add: calculateConfidence_def Let_def min_def)

lemma calculateConfidence_hit: "ms \<noteq> [] \<Longrightarrow> 1 / 10 \<le> calculateConfidence ms t ctx"
  by (cases ms) (simp_all add: calculateConfidence_def Let_def min_def)

lemma calculateConfidence_le_1: "calculateConfidence ms t ctx \<le> 1"
  by (simp add: calculateConfidence_def Let_def)

text \<open>The four steps of \<open>applyContextAdjustments\<close>, before the final cap.\<close>

lemma adjust_steps:
  obtains a0 a1 a2 a3 where
    "applyContextAdjustments c n ctx = min a3 1"
    "a0 = (if 1 < n then c + 1 / 10 * of_nat (n - 1) else c)"
    "a1 = (if repeatOffender ctx then max (a0 + 1 / 5) (2 / 5) else a0)"
    "a1 \<le> a2" "a2 \<le> a3" "a3 \<le> a1 + 3 / 20"
proof -
  define a0 where "a0 = (if 1 < n then c + 1 / 10 * of_nat (n - 1) else c)"
  define a1 where "a1 = (if repeatOffender ctx then max (a0 + 1 / 5) (2 / 5) else a0)"
  define a2 where "a2 = (if platformIs ctx ''twitter'' then a1 + 1 / 20 else a1)"
  define a3 where "a3 = (if audienceIs ctx ''children'' then a2 + 1 / 10 else a2)"
  have "applyContextAdjustments c n ctx = min a3 1"
    by (simp add: applyContextAdjustments_def Let_def a0_def a1_def a2_def a3_def)
  moreover have "a1 \<le> a2" by (simp add: a2_def)
  moreover have "a2 \<le> a3" by (simp add: a3_def)
  moreover have "a3 \<le> a1 + 3 / 20" by (simp add: a2_def a3_def)
  ultimately show thesis using that a0_def a1_def by blast
qed

lemma adjust_le_1: "applyContextAdjustments c n ctx \<le> 1"
  by (simp add: applyContextAdjustments_def Let_def)

lemma adjust_ge: "min c 1 \<le> applyContextAdjustments c n ctx"
proof -
  obtain a0 a1 a2 a3 where h:
    "applyContextAdjustments c n ctx = min a3 1"
    "a0 = (if 1 < n then c + 1 / 10 * of_nat (n - 1) else c)"
    "a1 = (if repeatOffender ctx then max (a0 + 1 / 5) (2 / 5) else a0)"
    "a1 \<le> a2" "a2 \<le> a3" "a3 \<le> a1 + 3 / 20"
    by (rule adjust_steps)
  have "c \<le> a0" using h(2) by simp
  moreover have "a0 \<le> a1" using h(3) by (simp add: max_def)
  ultimately have "c \<le> a3" using h(4,5) by linarith
  then show ?thesis using h(1) by (simp add: min_def)
qed

lemma adjust_nonneg: "0 \<le> c \<Longrightarrow> 0 \<le> applyContextAdjustments c n ctx"
  using adjust_ge [of c n ctx] by (simp add: min_def split: if_splits)

lemma adjust_bonus:
  assumes n: "1 < n"
  shows "min (c + 1 / 10) 1 \<le> applyContextAdjustments c n ctx"
proof -
  obtain a0 a1 a2 a3 where h:
    "applyContextAdjustments c n ctx = min a3 1"
    "a0 = (if 1 < n then c + 1 / 10 * of_nat (n - 1) else c)"
    "a1 = (if repeatOffender ctx then max (a0 + 1 / 5) (2 / 5) else a0)"
    "a1 \<le> a2" "a2 \<le> a3" "a3 \<le> a1 + 3 / 20"
    by (rule adjust_steps)
  have "1 \<le> n - 1" using n by simp
  then have "(1::rat) \<le> of_nat (n - 1)" by (metis of_nat_1 of_nat_le_iff)
  then have "c + 1 / 10 \<le> a0" using h(2) n by simp
  moreover have "a0 \<le> a1" using h(3) by (simp add: max_def)
  ultimately have "c + 1 / 10 \<le> a3" using h(4,5) by linarith
  then show ?thesis using h(1) by (simp add: min_def)
qed

text \<open>The bonus for several reasons: 0.1 for each reason after the first.\<close>

lemma adjust_bonus_count:
  assumes n: "1 < n"
  shows "min (c + 1 / 10 * of_nat (n - 1)) 1 \<le> applyContextAdjustments c n ctx"
proof -
  obtain a0 a1 a2 a3 where h:
    "applyContextAdjustments c n ctx = min a3 1"
    "a0 = (if 1 < n then c + 1 / 10 * of_nat (n - 1) else c)"
    "a1 = (if repeatOffender ctx then max (a0 + 1 / 5) (2 / 5) else a0)"
    "a1 \<le> a2" "a2 \<le> a3" "a3 \<le> a1 + 3 / 20"
    by (rule adjust_steps)
  have "c + 1 / 10 * of_nat (n - 1) = a0" using h(2) n by simp
  moreover have "a0 \<le> a1" using h(3) by (simp add: max_def)
  ultimately have "c + 1 / 10 * of_nat (n - 1) \<le> a3" using h(4,5) by linarith
  then show ?thesis using h(1) by (simp add: min_def)
qed

lemma adjust_repeat:
  assumes "repeatOffender ctx"
  shows "2 / 5 \<le> applyContextAdjustments c n ctx"
proof -
  obtain a0 a1 a2 a3 where h:
    "applyContextAdjustments c n ctx = min a3 1"
    "a0 = (if 1 < n then c + 1 / 10 * of_nat (n - 1) else c)"
    "a1 = (if repeatOffender ctx then max (a0 + 1 / 5) (2 / 5) else a0)"
    "a1 \<le> a2" "a2 \<le> a3" "a3 \<le> a1 + 3 / 20"
    by (rule adjust_steps)
  have "2 / 5 \<le> a1" using h(3) assms by simp
  then have "2 / 5 \<le> a3" using h(4,5) by linarith
  then show ?thesis using h(1) by (simp add: min_def)
qed

lemma adjust_clean:
  assumes "\<not> repeatOffender ctx"
  shows "applyContextAdjustments 0 0 ctx \<le> 3 / 20"
proof -
  obtain a0 a1 a2 a3 where h:
    "applyContextAdjustments 0 0 ctx = min a3 1"
    "a0 = (if 1 < (0::nat) then 0 + 1 / 10 * of_nat (0 - 1) else 0)"
    "a1 = (if repeatOffender ctx then max (a0 + 1 / 5) (2 / 5) else a0)"
    "a1 \<le> a2" "a2 \<le> a3" "a3 \<le> a1 + 3 / 20"
    by (rule adjust_steps)
  have "a1 = 0" using h(2,3) assms by simp
  then have "a3 \<le> 3 / 20" using h(6) by simp
  then show ?thesis using h(1) by (simp add: min_def)
qed

lemma severity_harassment: "getSeverityForReason harassment c = high"
  by (simp add: getSeverityForReason_def)

lemma higher_left: "severityIndex a \<le> severityIndex (getHigherSeverity a b)"
  by (simp add: getHigherSeverity_def)

lemma higher_right: "severityIndex b \<le> severityIndex (getHigherSeverity a b)"
  by (simp add: getHigherSeverity_def)

section \<open>Properties of the loop\<close>

lemma scan_append:
  "checkCategories t ctx (xs @ ys) st = checkCategories t ctx ys (checkCategories t ctx xs st)"
  by (induction t ctx xs st rule: checkCategories.induct) (simp_all add: Let_def)

lemma scan_reasons:
  "fst (checkCategories t ctx cats (rs, c, s)) =
     rs @ map fst (filter (\<lambda>e. findPatternMatches t (snd e) \<noteq> []) cats)"
  by (induction cats arbitrary: rs c s) (auto simp add: Let_def)

lemma scan_conf:
  "fst (snd (checkCategories t ctx cats (rs, c, s))) =
     c + sum_list (map (\<lambda>e. calculateConfidence (findPatternMatches t (snd e)) t ctx)
           (filter (\<lambda>e. findPatternMatches t (snd e) \<noteq> []) cats))"
  by (induction cats arbitrary: rs c s) (auto simp add: Let_def)

lemma scan_severity_mono:
  "severityIndex s \<le> severityIndex (snd (snd (checkCategories t ctx cats (rs, c, s))))"
proof (induction cats arbitrary: rs c s)
  case Nil
  show ?case by simp
next
  case (Cons e cats)
  obtain r ps where e: "e = (r, ps)" by (cases e)
  show ?case
  proof (cases "findPatternMatches t ps = []")
    case True
    then show ?thesis unfolding e using Cons.IH by simp
  next
    case False
    then show ?thesis
      unfolding e by (simp add: Let_def order_trans [OF higher_left Cons.IH])
  qed
qed

lemma scan_severity_hit:
  assumes "(r, ps) \<in> set cats" and "findPatternMatches t ps \<noteq> []"
  shows "severityIndex (getSeverityForReason r (calculateConfidence (findPatternMatches t ps) t ctx))
           \<le> severityIndex (snd (snd (checkCategories t ctx cats (rs, c, s))))"
  using assms
proof (induction cats arbitrary: rs c s)
  case Nil
  then show ?case by simp
next
  case (Cons e cats)
  obtain r' ps' where e: "e = (r', ps')" by (cases e)
  show ?case
  proof (cases "e = (r, ps)")
    case True
    then have "r' = r" "ps' = ps" using e by auto
    then show ?thesis
      unfolding e using Cons.prems(2)
      by (simp add: Let_def order_trans [OF higher_right scan_severity_mono])
  next
    case False
    then have "(r, ps) \<in> set cats" using Cons.prems(1) by auto
    then show ?thesis
      unfolding e using Cons.IH Cons.prems(2) by (simp add: Let_def)
  qed
qed

text \<open>One step of the loop, by whether the category hits.\<close>

lemma scan_miss:
  "findPatternMatches t ps = [] \<Longrightarrow>
   checkCategories t ctx ((r, ps) # rest) (rs, c, s) = checkCategories t ctx rest (rs, c, s)"
  by simp

lemma scan_hit:
  "length (findPatternMatches t ps) = Suc n \<Longrightarrow>
   checkCategories t ctx ((r, ps) # rest) (rs, c, s) =
   checkCategories t ctx rest
     (rs @ [r], c + calculateConfidence (findPatternMatches t ps) t ctx,
      getHigherSeverity s
        (getSeverityForReason r (calculateConfidence (findPatternMatches t ps) t ctx)))"
  by (auto simp add: Let_def)

lemma scan_no_hit:
  "\<forall>e \<in> set cats. findPatternMatches t (snd e) = [] \<Longrightarrow>
   checkCategories t ctx cats (rs, c, s) = (rs, c, s)"
  by (induction cats) auto

section \<open>Evaluating a search\<close>

text \<open>
  The equations of the matcher as conditional rewrite rules whose conditions only mention
  single code units, for evaluating a search on a given text.
\<close>

lemma lit_hit:
  "canonicalize ic a = canonicalize ic x \<Longrightarrow> lit ic (a # w) (p, x # xs) = lit ic w (Some x, xs)"
  by simp

lemma lit_miss: "canonicalize ic a \<noteq> canonicalize ic x \<Longrightarrow> lit ic (a # w) (p, x # xs) = []"
  by simp

lemma many_nil_ok: "lo \<le> k \<Longrightarrow> many P lo hi k (p, []) = [(p, [])]"
  by simp

lemma many_nil_no: "\<not> lo \<le> k \<Longrightarrow> many P lo hi k (p, []) = []"
  by simp

lemma many_go_ok:
  "P x \<Longrightarrow> (case hi of None \<Rightarrow> True | Some h \<Rightarrow> k < h) \<Longrightarrow> lo \<le> k \<Longrightarrow>
   many P lo hi k (p, x # xs) = (p, x # xs) # many P lo hi (Suc k) (Some x, xs)"
  by simp

lemma many_go_no:
  "P x \<Longrightarrow> (case hi of None \<Rightarrow> True | Some h \<Rightarrow> k < h) \<Longrightarrow> \<not> lo \<le> k \<Longrightarrow>
   many P lo hi k (p, x # xs) = many P lo hi (Suc k) (Some x, xs)"
  by simp

lemma many_stop_ok:
  "\<not> (P x \<and> (case hi of None \<Rightarrow> True | Some h \<Rightarrow> k < h)) \<Longrightarrow> lo \<le> k \<Longrightarrow>
   many P lo hi k (p, x # xs) = [(p, x # xs)]"
  by auto

lemma many_stop_no:
  "\<not> (P x \<and> (case hi of None \<Rightarrow> True | Some h \<Rightarrow> k < h)) \<Longrightarrow> \<not> lo \<le> k \<Longrightarrow>
   many P lo hi k (p, x # xs) = []"
  by auto

lemma wordb_nil_hit:
  "(case p of None \<Rightarrow> False | Some u \<Rightarrow> is_word u) \<Longrightarrow> ends WordB ic (p, []) = [(p, [])]"
  by (simp add: at_word_boundary_def)

lemma wordb_nil_miss:
  "\<not> (case p of None \<Rightarrow> False | Some u \<Rightarrow> is_word u) \<Longrightarrow> ends WordB ic (p, []) = []"
  by (simp add: at_word_boundary_def)

lemma wordb_hit:
  "(case p of None \<Rightarrow> False | Some u \<Rightarrow> is_word u) \<noteq> is_word x \<Longrightarrow>
   ends WordB ic (p, x # xs) = [(p, x # xs)]"
  by (simp add: at_word_boundary_def)

lemma wordb_miss:
  "(case p of None \<Rightarrow> False | Some u \<Rightarrow> is_word u) = is_word x \<Longrightarrow>
   ends WordB ic (p, x # xs) = []"
  by (simp add: at_word_boundary_def)

lemma neg_hit: "ends r ic c = [] \<Longrightarrow> ends (NegAhead r) ic c = [c]"
  by simp

lemma neg_miss: "ends r ic c \<noteq> [] \<Longrightarrow> ends (NegAhead r) ic c = []"
  by simp

lemma dot_backref_stop: "is_line_terminator x \<Longrightarrow> dot_backref n (p, x # xs) = []"
  by simp

lemma dot_backref_go:
  "\<not> is_line_terminator x \<Longrightarrow>
   dot_backref n (p, x # xs) = many (\<lambda>u. u = x) n None 0 (Some x, xs)"
  by simp

lemma search_cons:
  "search r ic p (x # xs) = (ends r ic (p, x # xs) \<noteq> [] \<or> search r ic (Some x) xs)"
  by simp

lemma filter_hit: "P x \<Longrightarrow> filter P (x # xs) = x # filter P xs"
  by simp

lemma filter_miss: "\<not> P x \<Longrightarrow> filter P (x # xs) = filter P xs"
  by simp

lemma canon_False: "canonicalize False u = u"
  by (simp add: canonicalize_def)

lemma canon_True: "canonicalize True u = (if is_lower u then u - 32 else u)"
  by (simp add: canonicalize_def)

text \<open>The classes of the catalog, as conditions on a code unit.\<close>

lemma cls_word: "in_class ic [CWord] u = is_word u"
  by (simp add: in_class_def)

lemma cls_digit: "in_class ic [CDigit] u = is_digit u"
  by (simp add: in_class_def)

lemma cls_dollar: "in_class True [CChar (CHR ''$'')] u = (u = 36)"
  by (auto simp add: in_class_def canonicalize_def is_lower_def)

lemma cls_caps:
  "in_class False [CRange (CHR ''A'') (CHR ''Z''), CSpace] u = (is_upper u \<or> is_space u)"
  by (simp add: in_class_def is_upper_def)

lemma cls_sep: "in_class False [CSpace, CChar (CHR ''-'')] u = (is_space u \<or> u = 45)"
  by (auto simp add: in_class_def canonicalize_def)

lemma cls_email_local:
  "in_class False
     [CRange (CHR ''A'') (CHR ''Z''), CRange (CHR ''a'') (CHR ''z''),
      CRange (CHR ''0'') (CHR ''9''), CChar (CHR ''.''), CChar (CHR ''_''),
      CChar (CHR ''%''), CChar (CHR ''+''), CChar (CHR ''-'')] u =
   (is_upper u \<or> is_lower u \<or> is_digit u \<or> u = 46 \<or> u = 95 \<or> u = 37 \<or> u = 43 \<or> u = 45)"
  by (auto simp add: in_class_def canonicalize_def is_upper_def is_lower_def is_digit_def)

lemma cls_email_host:
  "in_class False
     [CRange (CHR ''A'') (CHR ''Z''), CRange (CHR ''a'') (CHR ''z''),
      CRange (CHR ''0'') (CHR ''9''), CChar (CHR ''.''), CChar (CHR ''-'')] u =
   (is_upper u \<or> is_lower u \<or> is_digit u \<or> u = 46 \<or> u = 45)"
  by (auto simp add: in_class_def canonicalize_def is_upper_def is_lower_def is_digit_def)

lemma cls_email_tld:
  "in_class False
     [CRange (CHR ''A'') (CHR ''Z''), CChar (CHR ''|''), CRange (CHR ''a'') (CHR ''z'')] u =
   (is_upper u \<or> u = 124 \<or> is_lower u)"
  by (auto simp add: in_class_def canonicalize_def is_upper_def is_lower_def)

lemmas search_eval =
  search.simps(1) search_cons ends.simps(1,2,5,6,7)
  wordb_nil_hit wordb_nil_miss wordb_hit wordb_miss neg_hit neg_miss
  lit.simps(1,2) lit_hit lit_miss
  many_nil_ok many_nil_no many_go_ok many_go_no many_stop_ok many_stop_no
  dot_backref.simps(1) dot_backref_stop dot_backref_go
  canon_False canon_True is_lower_def is_upper_def is_digit_def is_word_def is_space_def
  is_line_terminator_def
  cls_word cls_digit cls_dollar cls_caps cls_sep cls_email_local cls_email_host cls_email_tld
  option.case list.map concat.simps append.simps list.distinct list.inject prod.inject
  option.inject option.distinct simp_thms if_True if_False
  rel_simps arith_simps diff_nat_numeral nat_numeral nat_0
  le_numeral_Suc less_Suc_numeral less_numeral_Suc le_Suc_numeral pred_numeral_simps
  le0 le_zero_eq not_less0 zero_less_Suc Suc_le_mono Suc_less_eq One_nat_def nat.distinct
  filter.simps(1) filter_hit filter_miss findPatternMatches_def str_match_def fst_conv snd_conv

lemmas catalog_defs =
  patternsOf_def PATTERN_MAP_def
  SPAM_phrases_def SPAM_repetition_def SPAM_excessiveCaps_def SPAM_suspiciousUrls_def
  HATE_SPEECH_slurs_def HATE_SPEECH_discriminatory_def
  HARASSMENT_threats_def HARASSMENT_intimidation_def
  VIOLENCE_explicit_def VIOLENCE_weapons_def ADULT_CONTENT_explicit_def
  MISINFORMATION_conspiracy_def MISINFORMATION_medical_def
  PHISHING_urgency_def PHISHING_suspicious_def
  PERSONAL_INFO_ssn_def PERSONAL_INFO_phone_def PERSONAL_INFO_email_def
  PERSONAL_INFO_creditCard_def sep_opt_def digits_def word_plus_def phrase_def lits_def units_def

lemma PATTERN_MAP_entries:
  "PATTERN_MAP =
     map (\<lambda>r. (r, patternsOf r))
       [spam, hate_speech, harassment, violence, adult_content, misinformation, phishing,
        copyright_violation, malware, inappropriate_language, personal_information]"
  by (simp add: PATTERN_MAP_def patternsOf_def)

lemma findPersonalInfoPatterns_catalog:
  "findPersonalInfoPatterns t = findPatternMatches t (patternsOf personal_information)"
  by (simp add: findPersonalInfoPatterns_def patternsOf_def PATTERN_MAP_def
      PERSONAL_INFO_ssn_def PERSONAL_INFO_phone_def PERSONAL_INFO_email_def
      PERSONAL_INFO_creditCard_def)

text \<open>No rule of the catalog matches the empty text.\<close>

lemma empty_matches:
  "map (\<lambda>r. findPatternMatches [] (patternsOf r))
     [spam, hate_speech, harassment, violence, adult_content, misinformation, phishing,
      copyright_violation, malware, inappropriate_language, personal_information] =
   [[], [], [], [], [], [], [], [], [], [], []]"
  by (simp add: catalog_defs, simp only: search_eval)

lemma empty_no_match: "findPatternMatches [] (patternsOf r) = []"
  using empty_matches by (cases r) simp_all

section \<open>Properties of the analysis\<close>

lemma analyze_clean:
  assumes "falsy (content_text (request_content r))" and "falsy (content_url (request_content r))"
  shows "analyzeContent r = createCleanResult"
  using assms by (simp add: analyzeContent_def Let_def)

lemma analyze_scanned:
  assumes "\<not> (falsy (content_text (request_content r)) \<and> falsy (content_url (request_content r)))"
    and "scanResult (combinedTextOf (request_content r)) (request_context r) = (rs, c, s)"
  shows "analyzeContent r =
     \<lparr>isFlagged = (applyContextAdjustments c (length rs) (request_context r) > 3 / 10 \<or> rs \<noteq> []),
      severity = s,
      reasons = rs,
      confidence = applyContextAdjustments c (length rs) (request_context r),
      details = Some (generateDetails rs (applyContextAdjustments c (length rs) (request_context r)))\<rparr>"
  using assms adjust_le_1 [of c "length rs" "request_context r"]
  by (auto simp add: analyzeContent_def Let_def scanResult_def min_def)

lemma combined_of_falsy:
  assumes "falsy (content_text c)" and "falsy (content_url c)"
  shows "combinedTextOf c = []"
  using assms
  by (auto simp add: combinedTextOf_def falsy_def orEmpty_def trim_def units_def is_space_def
      split: option.splits)

text \<open>The three variables after both checks, in terms of the categories that hit.\<close>

lemma scanResult_reasons:
  "fst (scanResult t ctx) =
     map fst (filter (\<lambda>e. findPatternMatches t (snd e) \<noteq> []) PATTERN_MAP) @
     (if findPatternMatches t (patternsOf personal_information) \<noteq> []
      then [personal_information] else [])"
proof -
  obtain rs c s where st: "checkCategories t ctx PATTERN_MAP ([], 0, low) = (rs, c, s)"
    by (cases "checkCategories t ctx PATTERN_MAP ([], 0, low)")
  have "rs = map fst (filter (\<lambda>e. findPatternMatches t (snd e) \<noteq> []) PATTERN_MAP)"
    using scan_reasons [of t ctx PATTERN_MAP "[]" 0 low] st by simp
  then show ?thesis
    by (simp add: scanResult_def st checkPersonalInfo_def findPersonalInfoPatterns_catalog)
qed

lemma scanResult_conf:
  "fst (snd (scanResult t ctx)) =
     sum_list (map (\<lambda>e. calculateConfidence (findPatternMatches t (snd e)) t ctx)
        (filter (\<lambda>e. findPatternMatches t (snd e) \<noteq> []) PATTERN_MAP)) +
     (if findPatternMatches t (patternsOf personal_information) \<noteq> [] then 9 / 10 else 0)"
proof -
  obtain rs c s where st: "checkCategories t ctx PATTERN_MAP ([], 0, low) = (rs, c, s)"
    by (cases "checkCategories t ctx PATTERN_MAP ([], 0, low)")
  have "c = sum_list (map (\<lambda>e. calculateConfidence (findPatternMatches t (snd e)) t ctx)
        (filter (\<lambda>e. findPatternMatches t (snd e) \<noteq> []) PATTERN_MAP))"
    using scan_conf [of t ctx PATTERN_MAP "[]" 0 low] st by simp
  then show ?thesis
    by (simp add: scanResult_def st checkPersonalInfo_def findPersonalInfoPatterns_catalog)
qed

lemma hit_sum_nonneg:
  "0 \<le> sum_list (map (\<lambda>e. calculateConfidence (findPatternMatches t (snd e)) t ctx) es)"
  by (rule sum_list_nonneg) (auto simp add: calculateConfidence_nonneg)

lemma scanResult_conf_nonneg: "0 \<le> fst (snd (scanResult t ctx))"
proof -
  have "0 \<le> sum_list (map (\<lambda>e. calculateConfidence (findPatternMatches t (snd e)) t ctx)
        (filter (\<lambda>e. findPatternMatches t (snd e) \<noteq> []) PATTERN_MAP))"
    by (rule hit_sum_nonneg)
  then show ?thesis unfolding scanResult_conf by simp
qed


lemma scanResult_no_hit:
  assumes "\<forall>e \<in> set PATTERN_MAP. findPatternMatches t (snd e) = []"
  shows "scanResult t ctx = ([], 0, low)"
proof -
  have "(personal_information, patternsOf personal_information) \<in> set PATTERN_MAP"
    by (simp add: PATTERN_MAP_entries)
  then have p: "findPatternMatches t (patternsOf personal_information) = []"
    using assms by fastforce
  have "checkCategories t ctx PATTERN_MAP ([], 0, low) = ([], 0, low)"
    using assms by (rule scan_no_hit)
  then show ?thesis
    by (simp add: scanResult_def checkPersonalInfo_def findPersonalInfoPatterns_catalog p)
qed

lemma entry_patterns: "e \<in> set PATTERN_MAP \<Longrightarrow> snd e = patternsOf (fst e)"
  by (auto simp add: PATTERN_MAP_entries)

lemma entry_member: "(r, patternsOf r) \<in> set PATTERN_MAP"
  by (cases r) (simp_all add: PATTERN_MAP_entries)

lemma scanResult_severity_hit:
  assumes "findPatternMatches t (patternsOf r) \<noteq> []"
  shows "severityIndex
           (getSeverityForReason r (calculateConfidence (findPatternMatches t (patternsOf r)) t ctx))
         \<le> severityIndex (snd (snd (scanResult t ctx)))"
proof -
  obtain rs c s where st: "checkCategories t ctx PATTERN_MAP ([], 0, low) = (rs, c, s)"
    by (cases "checkCategories t ctx PATTERN_MAP ([], 0, low)")
  have "severityIndex
          (getSeverityForReason r (calculateConfidence (findPatternMatches t (patternsOf r)) t ctx))
        \<le> severityIndex s"
    using scan_severity_hit [OF entry_member assms, of ctx "[]" 0 low] st by simp
  moreover have "severityIndex s \<le> severityIndex (snd (snd (scanResult t ctx)))"
    by (simp add: scanResult_def st checkPersonalInfo_def higher_left)
  ultimately show ?thesis by (rule order_trans)
qed

lemma scanResult_reason_hit:
  assumes "findPatternMatches t (patternsOf r) \<noteq> []"
  shows "r \<in> set (fst (scanResult t ctx))"
proof -
  have "(r, patternsOf r) \<in> set (filter (\<lambda>e. findPatternMatches t (snd e) \<noteq> []) PATTERN_MAP)"
    using entry_member assms by simp
  then have "r \<in> fst ` set (filter (\<lambda>e. findPatternMatches t (snd e) \<noteq> []) PATTERN_MAP)"
    by force
  then show ?thesis by (simp add: scanResult_reasons)
qed

lemma scanResult_reasons_empty:
  "fst (scanResult t ctx) = [] \<longleftrightarrow>
   (\<forall>e \<in> set PATTERN_MAP. findPatternMatches t (snd e) = [])"
proof
  assume "fst (scanResult t ctx) = []"
  then show "\<forall>e \<in> set PATTERN_MAP. findPatternMatches t (snd e) = []"
    by (auto simp add: scanResult_reasons filter_empty_conv split: if_splits)
next
  assume "\<forall>e \<in> set PATTERN_MAP. findPatternMatches t (snd e) = []"
  then show "fst (scanResult t ctx) = []" by (simp add: scanResult_no_hit)
qed

lemma hit_le_sum:
  assumes "e \<in> set es" and "findPatternMatches t (snd e) \<noteq> []"
  shows "calculateConfidence (findPatternMatches t (snd e)) t ctx
         \<le> sum_list (map (\<lambda>e. calculateConfidence (findPatternMatches t (snd e)) t ctx)
              (filter (\<lambda>e. findPatternMatches t (snd e) \<noteq> []) es))"
  using assms
proof (induction es)
  case Nil
  then show ?case by simp
next
  case (Cons x es)
  have n: "0 \<le> sum_list (map (\<lambda>e. calculateConfidence (findPatternMatches t (snd e)) t ctx)
              (filter (\<lambda>e. findPatternMatches t (snd e) \<noteq> []) es))"
    by (rule hit_sum_nonneg)
  have m: "0 \<le> calculateConfidence (findPatternMatches t (snd x)) t ctx"
    by (rule calculateConfidence_nonneg)
  show ?case
  proof (cases "e = x")
    case True
    then show ?thesis using Cons.prems(2) n by simp
  next
    case False
    then have "e \<in> set es" using Cons.prems(1) by simp
    then show ?thesis using Cons.IH Cons.prems(2) m by simp
  qed
qed

text \<open>
  When both \<open>spam\<close> and \<open>harassment\<close> hit: two reasons at least, and a total that is at
  least the sum of the two confidences.
\<close>

lemma spam_harassment_scan:
  assumes sp: "findPatternMatches t (patternsOf spam) \<noteq> []"
    and ha: "findPatternMatches t (patternsOf harassment) \<noteq> []"
    and st: "scanResult t ctx = (rs, c, s)"
  shows "1 < length rs"
    and "calculateConfidence (findPatternMatches t (patternsOf spam)) t ctx +
         calculateConfidence (findPatternMatches t (patternsOf harassment)) t ctx \<le> c"
proof -
  let ?hit = "\<lambda>e. findPatternMatches t (snd e) \<noteq> []"
  let ?f = "\<lambda>e. calculateConfidence (findPatternMatches t (snd e)) t ctx"
  define es1 where "es1 = [(spam, patternsOf spam), (hate_speech, patternsOf hate_speech)]"
  define es2 where "es2 = drop 2 PATTERN_MAP"
  have split: "PATTERN_MAP = es1 @ es2"
    by (simp add: es1_def es2_def PATTERN_MAP_entries)
  have hb: "(harassment, patternsOf harassment) \<in> set es2"
    by (simp add: es2_def PATTERN_MAP_entries)
  have hf: "(spam, patternsOf spam) \<in> set es1"
    by (simp add: es1_def)
  have f1: "filter ?hit es1 \<noteq> []" using hf sp by (force simp add: filter_empty_conv)
  have f2: "filter ?hit es2 \<noteq> []" using hb ha by (force simp add: filter_empty_conv)
  have "2 \<le> length (filter ?hit es1) + length (filter ?hit es2)"
    using f1 f2 by (cases "filter ?hit es1"; cases "filter ?hit es2") simp_all
  then have "2 \<le> length (fst (scanResult t ctx))"
    by (simp add: scanResult_reasons split)
  then show "1 < length rs" using st by simp
  have s1: "?f (spam, patternsOf spam) \<le> sum_list (map ?f (filter ?hit es1))"
    using hf sp by (intro hit_le_sum) simp_all
  have s2: "?f (harassment, patternsOf harassment) \<le> sum_list (map ?f (filter ?hit es2))"
    using hb ha by (intro hit_le_sum) simp_all
  have "sum_list (map ?f (filter ?hit es1)) + sum_list (map ?f (filter ?hit es2))
        \<le> fst (snd (scanResult t ctx))"
    by (simp add: scanResult_conf split)
  then show "calculateConfidence (findPatternMatches t (patternsOf spam)) t ctx +
         calculateConfidence (findPatternMatches t (patternsOf harassment)) t ctx \<le> c"
    using s1 s2 st by simp
qed

lemma spam_harassment_confidence:
  assumes sp: "findPatternMatches (combinedTextOf (request_content r)) (patternsOf spam) \<noteq> []"
    and ha: "findPatternMatches (combinedTextOf (request_content r)) (patternsOf harassment) \<noteq> []"
  shows "1 < length (reasons (analyzeContent r))"
    and "min (calculateConfidence
               (findPatternMatches (combinedTextOf (request_content r)) (patternsOf spam))
               (combinedTextOf (request_content r)) (request_context r) +
              calculateConfidence
               (findPatternMatches (combinedTextOf (request_content r)) (patternsOf harassment))
               (combinedTextOf (request_content r)) (request_context r) + 1 / 10) 1
         \<le> confidence (analyzeContent r)"
proof -
  let ?t = "combinedTextOf (request_content r)"
  have "?t \<noteq> []" using sp empty_no_match [of spam] by auto
  then have g: "\<not> (falsy (content_text (request_content r)) \<and>
                   falsy (content_url (request_content r)))"
    using combined_of_falsy by blast
  obtain rs c s where st: "scanResult ?t (request_context r) = (rs, c, s)"
    by (cases "scanResult ?t (request_context r)")
  have n: "1 < length rs" using sp ha st by (rule spam_harassment_scan)
  then show "1 < length (reasons (analyzeContent r))"
    by (simp add: analyze_scanned [OF g st])
  have c: "calculateConfidence (findPatternMatches ?t (patternsOf spam)) ?t (request_context r) +
        calculateConfidence (findPatternMatches ?t (patternsOf harassment)) ?t (request_context r)
        \<le> c"
    using sp ha st by (rule spam_harassment_scan)
  have "min (c + 1 / 10) 1 \<le> applyContextAdjustments c (length rs) (request_context r)"
    using n by (rule adjust_bonus)
  then show "min (calculateConfidence (findPatternMatches ?t (patternsOf spam)) ?t
                    (request_context r) +
                  calculateConfidence (findPatternMatches ?t (patternsOf harassment)) ?t
                    (request_context r) + 1 / 10) 1
             \<le> confidence (analyzeContent r)"
    using c by (simp add: analyze_scanned [OF g st] min_def split: if_splits)
qed

lemma spam_harassment_bonus:
  assumes sp: "findPatternMatches (combinedTextOf (request_content r)) (patternsOf spam) \<noteq> []"
    and ha: "findPatternMatches (combinedTextOf (request_content r)) (patternsOf harassment) \<noteq> []"
  shows "min (calculateConfidence
               (findPatternMatches (combinedTextOf (request_content r)) (patternsOf spam))
               (combinedTextOf (request_content r)) (request_context r) +
              calculateConfidence
               (findPatternMatches (combinedTextOf (request_content r)) (patternsOf harassment))
               (combinedTextOf (request_content r)) (request_context r) +
              1 / 10 * of_nat (length (reasons (analyzeContent r)) - 1)) 1
         \<le> confidence (analyzeContent r)"
proof -
  let ?t = "combinedTextOf (request_content r)"
  have "?t \<noteq> []" using sp empty_no_match [of spam] by auto
  then have g: "\<not> (falsy (content_text (request_content r)) \<and>
                   falsy (content_url (request_content r)))"
    using combined_of_falsy by blast
  obtain rs c s where st: "scanResult ?t (request_context r) = (rs, c, s)"
    by (cases "scanResult ?t (request_context r)")
  have n: "1 < length rs" using sp ha st by (rule spam_harassment_scan)
  have c: "calculateConfidence (findPatternMatches ?t (patternsOf spam)) ?t (request_context r) +
        calculateConfidence (findPatternMatches ?t (patternsOf harassment)) ?t (request_context r)
        \<le> c"
    using sp ha st by (rule spam_harassment_scan)
  have "min (c + 1 / 10 * of_nat (length rs - 1)) 1
        \<le> applyContextAdjustments c (length rs) (request_context r)"
    using n by (rule adjust_bonus_count)
  then show ?thesis
    using c by (simp add: analyze_scanned [OF g st] min_def split: if_splits)
qed

section \<open>Literal phrases\<close>

lemma lit_prefix: "lit ic w (p, w @ suf) \<noteq> []"
  by (induction w arbitrary: p) simp_all

lemma search_here: "ends r ic (p, xs) \<noteq> [] \<Longrightarrow> search r ic p xs"
  by (cases xs) simp_all

lemma search_lit: "search (Lit w) ic p (pre @ w @ suf)"
proof (induction pre arbitrary: p)
  case Nil
  have "ends (Lit w) ic (p, w @ suf) \<noteq> []" by (simp add: lit_prefix)
  then show ?case by (simp add: search_here)
next
  case (Cons x pre)
  then show ?case by simp
qed

lemma phrase_matches: "str_match (pre @ units w @ suf) (phrase w)"
  by (simp add: str_match_def phrase_def lits_def search_lit)

lemma die_rule: "phrase ''die'' \<in> set (patternsOf harassment)"
  by (simp add: patternsOf_def PATTERN_MAP_def HARASSMENT_threats_def)

lemma die_hits_harassment:
  "findPatternMatches (pre @ units ''die'' @ suf) (patternsOf harassment) \<noteq> []"
  using die_rule phrase_matches [of pre "''die''" suf]
  by (auto simp add: findPatternMatches_def filter_empty_conv)

section \<open>The analysis of given texts\<close>

lemma length_units: "length (units w) = length w"
  by (simp add: units_def)

lemma personal_miss:
  "findPatternMatches t (patternsOf personal_information) = [] \<Longrightarrow> checkPersonalInfo t st = st"
  by (cases st) (simp add: checkPersonalInfo_def findPersonalInfoPatterns_catalog)

lemma personal_hit:
  "length (findPatternMatches t (patternsOf personal_information)) = Suc n \<Longrightarrow>
   checkPersonalInfo t (rs, c, s) =
   (rs @ [personal_information], c + 9 / 10, getHigherSeverity s high)"
  by (auto simp add: checkPersonalInfo_def findPersonalInfoPatterns_catalog)

lemmas count_eval = list.size add_Suc_right add_0_right

lemmas scan_eval =
  scanResult_def PATTERN_MAP_entries scan_miss scan_hit personal_miss personal_hit
  calculateConfidence_def getSeverityForReason_def getHigherSeverity_def length_units Let_def

text \<open>A text that neither starts nor ends with white space is its own combined text.\<close>

lemma trim_plain:
  assumes "t \<noteq> []" and "\<not> is_space (hd t)" and "\<not> is_space (last t)"
  shows "trim (t @ units '' '' @ []) = t"
proof -
  obtain x xs where t: "t = x # xs" using assms(1) by (cases t) auto
  have sp: "is_space 32" by (simp add: is_space_def)
  have d: "dropWhile is_space (t @ [32]) = t @ [32]" using assms(2) t by simp
  have "hd (rev t) = last t" using assms(1) by (simp add: hd_rev)
  then have "\<not> is_space (hd (rev t))" using assms(3) by simp
  moreover have "rev t \<noteq> []" using assms(1) by simp
  ultimately have "dropWhile is_space (rev t) = rev t" by (cases "rev t") simp_all
  then show ?thesis using d sp by (simp add: trim_def units_def)
qed

lemma text_only:
  assumes "content_text (request_content r) = Some t" and "content_url (request_content r) = None"
    and "t \<noteq> []" and "\<not> is_space (hd t)" and "\<not> is_space (last t)"
  shows "combinedTextOf (request_content r) = t"
    and "\<not> (falsy (content_text (request_content r)) \<and> falsy (content_url (request_content r)))"
  using assms trim_plain [OF assms(3-5)] by (simp_all add: combinedTextOf_def orEmpty_def falsy_def)

section \<open>The claims\<close>

text \<open>
  C1, amended. For every input whose context does not have \<open>previousFlags > 3\<close>, the
  result is flagged if and only if at least one category hits; and when no category hits,
  the confidence does not exceed 0.3.
\<close>

theorem flagged_iff_category_hit:
  assumes "\<not> repeatOffender (request_context r)"
  shows "(isFlagged (analyzeContent r) \<longleftrightarrow>
           (\<exists>e \<in> set PATTERN_MAP.
              findPatternMatches (combinedTextOf (request_content r)) (snd e) \<noteq> [])) \<and>
         ((\<forall>e \<in> set PATTERN_MAP.
              findPatternMatches (combinedTextOf (request_content r)) (snd e) = []) \<longrightarrow>
          confidence (analyzeContent r) \<le> 3 / 10)"
proof (cases "falsy (content_text (request_content r)) \<and> falsy (content_url (request_content r))")
  case True
  then have "combinedTextOf (request_content r) = []" by (simp add: combined_of_falsy)
  moreover have "\<forall>e \<in> set PATTERN_MAP. findPatternMatches [] (snd e) = []"
    by (simp add: entry_patterns empty_no_match)
  ultimately show ?thesis using True by (simp add: analyze_clean createCleanResult_def)
next
  case False
  let ?t = "combinedTextOf (request_content r)"
  obtain rs c s where st: "scanResult ?t (request_context r) = (rs, c, s)"
    by (cases "scanResult ?t (request_context r)")
  show ?thesis
  proof (cases "\<forall>e \<in> set PATTERN_MAP. findPatternMatches ?t (snd e) = []")
    case True
    then have "scanResult ?t (request_context r) = ([], 0, low)" by (rule scanResult_no_hit)
    then have e: "rs = []" "c = 0" using st by simp_all
    have "applyContextAdjustments 0 0 (request_context r) \<le> 3 / 20"
      using assms by (rule adjust_clean)
    then show ?thesis using True by (simp add: analyze_scanned [OF False st] e)
  next
    case hit: False
    then have "fst (scanResult ?t (request_context r)) \<noteq> []"
      by (simp add: scanResult_reasons_empty)
    then have "rs \<noteq> []" using st by simp
    then show ?thesis using hit by (auto simp add: analyze_scanned [OF False st])
  qed
qed

theorem flagged_iff_category_hit_witness:
  "\<not> repeatOffender (request_context (textRequest (units ''soldier'') None)) \<and>
   isFlagged (analyzeContent (textRequest (units ''soldier'') None)) \<and>
   (\<exists>e \<in> set PATTERN_MAP.
      findPatternMatches (combinedTextOf (request_content (textRequest (units ''soldier'') None)))
        (snd e) \<noteq> [])"
proof -
  let ?r = "textRequest (units ''soldier'') None"
  have h: "content_text (request_content ?r) = Some (units ''soldier'')"
    "content_url (request_content ?r) = None"
    by (simp_all add: textRequest_def itemRequest_def)
  have p: "units ''soldier'' \<noteq> []" "\<not> is_space (hd (units ''soldier''))"
    "\<not> is_space (last (units ''soldier''))"
    by (simp_all add: units_def is_space_def)
  have "combinedTextOf (request_content ?r) = units ''soldier''"
    by (rule text_only [OF h p])
  then have c: "combinedTextOf (request_content ?r) = units ''sol'' @ units ''die'' @ units ''r''"
    by (simp add: units_def)
  have "findPatternMatches (combinedTextOf (request_content ?r)) (patternsOf harassment) \<noteq> []"
    unfolding c by (rule die_hits_harassment)
  then have e: "\<exists>e \<in> set PATTERN_MAP.
      findPatternMatches (combinedTextOf (request_content ?r)) (snd e) \<noteq> []"
    using entry_member [of harassment] by force
  have n: "\<not> repeatOffender (request_context ?r)"
    by (simp add: textRequest_def itemRequest_def repeatOffender_def)
  show ?thesis using n e flagged_iff_category_hit [OF n] by blast
qed

lemma no_hit_from_matches:
  assumes "map (\<lambda>r. findPatternMatches t (patternsOf r))
     [spam, hate_speech, harassment, violence, adult_content, misinformation, phishing,
      copyright_violation, malware, inappropriate_language, personal_information] =
   [[], [], [], [], [], [], [], [], [], [], []]"
  shows "\<forall>e \<in> set PATTERN_MAP. findPatternMatches t (snd e) = []"
  using assms by (simp add: PATTERN_MAP_entries)

lemma borderline_matches:
  "map (\<lambda>r. findPatternMatches (units ''This is borderline spam content'') (patternsOf r))
     [spam, hate_speech, harassment, violence, adult_content, misinformation, phishing,
      copyright_violation, malware, inappropriate_language, personal_information] =
   [[], [], [], [], [], [], [], [], [], [], []]"
  by (simp add: catalog_defs, simp only: search_eval)

text \<open>
  The claim C1 as stated fails for a repeat offender: on the text of the unit test
  "applies context adjustments for repeat offenders", with \<open>previousFlags = 5\<close>, no category
  hits, and yet the confidence is 0.4 and the result is flagged.
\<close>

theorem flagged_iff_category_hit_counterexample:
  "isFlagged (analyzeContent
     (textRequest (units ''This is borderline spam content'') (Some (flagsOnly 5)))) \<and>
   \<not> (\<exists>e \<in> set PATTERN_MAP.
        findPatternMatches
          (combinedTextOf (request_content
             (textRequest (units ''This is borderline spam content'') (Some (flagsOnly 5)))))
          (snd e) \<noteq> []) \<and>
   confidence (analyzeContent
     (textRequest (units ''This is borderline spam content'') (Some (flagsOnly 5)))) = 2 / 5"
proof -
  let ?t = "units ''This is borderline spam content''"
  let ?r = "textRequest ?t (Some (flagsOnly 5))"
  have h: "content_text (request_content ?r) = Some ?t" "content_url (request_content ?r) = None"
    "request_context ?r = Some (flagsOnly 5)"
    by (simp_all add: textRequest_def itemRequest_def)
  have p: "?t \<noteq> []" "\<not> is_space (hd ?t)" "\<not> is_space (last ?t)"
    by (simp_all add: units_def is_space_def)
  note c = text_only [OF h(1,2) p]
  have n: "\<forall>e \<in> set PATTERN_MAP. findPatternMatches ?t (snd e) = []"
    using borderline_matches by (rule no_hit_from_matches)
  then have "scanResult ?t (request_context ?r) = ([], 0, low)" by (rule scanResult_no_hit)
  then have st: "scanResult (combinedTextOf (request_content ?r)) (request_context ?r) =
                   ([], 0, low)"
    by (simp add: c(1))
  have "applyContextAdjustments 0 0 (Some (flagsOnly 5)) = 2 / 5"
    by (simp add: applyContextAdjustments_def repeatOffender_def platformIs_def audienceIs_def
        flagsOnly_def)
  then show ?thesis using n by (simp add: analyze_scanned [OF c(2) st] h(3) c(1))
qed

lemma ssn_counts:
  "map (\<lambda>r. length (findPatternMatches
                    (units ''My SSN is 123-45-6789 and my phone is 555-123-4567'') (patternsOf r)))
     [spam, hate_speech, harassment, violence, adult_content, misinformation, phishing,
      copyright_violation, malware, inappropriate_language, personal_information] =
   [0, 0, 0, 0, 0, 0, 0, 0, 0, 0, Suc (Suc 0)]"
  by (simp add: catalog_defs, simp only: search_eval count_eval)

lemma ssn_scan:
  "scanResult (units ''My SSN is 123-45-6789 and my phone is 555-123-4567'') None =
     ([personal_information, personal_information], 3 / 2, high)"
  using ssn_counts
  by (simp add: scan_eval repeatOffender_def del: checkCategories.simps(2))

lemma ssn_plain:
  "units ''My SSN is 123-45-6789 and my phone is 555-123-4567'' \<noteq> []"
  "\<not> is_space (hd (units ''My SSN is 123-45-6789 and my phone is 555-123-4567''))"
  "\<not> is_space (last (units ''My SSN is 123-45-6789 and my phone is 555-123-4567''))"
  by (simp_all add: units_def is_space_def)

text \<open>
  C2. The claim is that the reasons never hold a category twice. The code does not keep
  it: on the text "My SSN is 123-45-6789 and my phone is 555-123-4567" the loop over the
  catalog and the dedicated check each add personal_information, and the reasons are that
  category twice.
\<close>

theorem personal_information_twice:
  "reasons (analyzeContent
     (textRequest (units ''My SSN is 123-45-6789 and my phone is 555-123-4567'') None)) =
   [personal_information, personal_information]"
proof -
  let ?r = "textRequest (units ''My SSN is 123-45-6789 and my phone is 555-123-4567'') None"
  have h: "content_text (request_content ?r) =
             Some (units ''My SSN is 123-45-6789 and my phone is 555-123-4567'')"
    "content_url (request_content ?r) = None" "request_context ?r = None"
    by (simp_all add: textRequest_def itemRequest_def)
  note c = text_only [OF h(1,2) ssn_plain]
  have st: "scanResult (combinedTextOf (request_content ?r)) (request_context ?r) =
              ([personal_information, personal_information], 3 / 2, high)"
    by (simp add: c(1) h(3) ssn_scan)
  show ?thesis by (simp add: analyze_scanned [OF c(2) st])
qed

text \<open>
  C3. For every input (any text, any url, any context) the confidence of the result of
  \<open>analyzeContent\<close> lies between 0 and 1.
\<close>

theorem confidence_bounds:
  "0 \<le> confidence (analyzeContent r) \<and> confidence (analyzeContent r) \<le> 1"
proof (cases "falsy (content_text (request_content r)) \<and> falsy (content_url (request_content r))")
  case True
  then show ?thesis by (simp add: analyze_clean createCleanResult_def)
next
  case False
  obtain rs c s where st:
    "scanResult (combinedTextOf (request_content r)) (request_context r) = (rs, c, s)"
    by (cases "scanResult (combinedTextOf (request_content r)) (request_context r)")
  have "0 \<le> c"
    using scanResult_conf_nonneg [of "combinedTextOf (request_content r)" "request_context r"] st
    by simp
  then show ?thesis
    by (simp add: analyze_scanned [OF False st] adjust_nonneg adjust_le_1)
qed

theorem confidence_bounds_witness:
  "0 \<le> confidence (analyzeContent (textRequest (units ''hello'') (Some (flagsOnly 5)))) \<and>
   confidence (analyzeContent (textRequest (units ''hello'') (Some (flagsOnly 5)))) \<le> 1"
  by (rule confidence_bounds)

text \<open>
  C4, amended. For every input whose combined text is empty, the reasons are empty and
  the severity is low. The result is not flagged when the text and the url are both absent
  or empty (whatever the context), or when the context does not have \<open>previousFlags > 3\<close>.
  Its confidence is 0 when the text and the url are both absent or empty (whatever the
  context), or when the context triggers no adjustment (\<open>previousFlags\<close> not above 3,
  platform not twitter, audience not children).
\<close>

theorem empty_combined_text:
  assumes "combinedTextOf (request_content r) = []"
  shows "reasons (analyzeContent r) = [] \<and> severity (analyzeContent r) = low \<and>
         ((falsy (content_text (request_content r)) \<and> falsy (content_url (request_content r))) \<or>
          \<not> repeatOffender (request_context r) \<longrightarrow>
          \<not> isFlagged (analyzeContent r)) \<and>
         ((falsy (content_text (request_content r)) \<and> falsy (content_url (request_content r))) \<or>
          (\<not> repeatOffender (request_context r) \<and> \<not> platformIs (request_context r) ''twitter'' \<and>
           \<not> audienceIs (request_context r) ''children'') \<longrightarrow>
          confidence (analyzeContent r) = 0)"
proof (cases "falsy (content_text (request_content r)) \<and> falsy (content_url (request_content r))")
  case True
  then show ?thesis by (simp add: analyze_clean createCleanResult_def)
next
  case False
  have "\<forall>e \<in> set PATTERN_MAP. findPatternMatches [] (snd e) = []"
    by (simp add: entry_patterns empty_no_match)
  then have st: "scanResult (combinedTextOf (request_content r)) (request_context r) = ([], 0, low)"
    unfolding assms by (rule scanResult_no_hit)
  have a: "\<not> repeatOffender (request_context r) \<Longrightarrow>
           \<not> 3 / 10 < applyContextAdjustments 0 0 (request_context r)"
    using adjust_clean [of "request_context r"] by simp
  have b: "\<not> repeatOffender (request_context r) \<Longrightarrow>
           \<not> platformIs (request_context r) ''twitter'' \<Longrightarrow>
           \<not> audienceIs (request_context r) ''children'' \<Longrightarrow>
           applyContextAdjustments 0 0 (request_context r) = 0"
    by (simp add: applyContextAdjustments_def)
  have v: "reasons (analyzeContent r) = []" "severity (analyzeContent r) = low"
    "isFlagged (analyzeContent r) = (3 / 10 < applyContextAdjustments 0 0 (request_context r))"
    "confidence (analyzeContent r) = applyContextAdjustments 0 0 (request_context r)"
    by (simp_all add: analyze_scanned [OF False st])
  show ?thesis using False a b by (auto simp add: v)
qed

theorem empty_combined_text_witness:
  "combinedTextOf (request_content (textRequest (units '' '') None)) = [] \<and>
   reasons (analyzeContent (textRequest (units '' '') None)) = [] \<and>
   severity (analyzeContent (textRequest (units '' '') None)) = low \<and>
   \<not> isFlagged (analyzeContent (textRequest (units '' '') None)) \<and>
   confidence (analyzeContent (textRequest (units '' '') None)) = 0"
proof -
  let ?r = "textRequest (units '' '') None"
  have c: "combinedTextOf (request_content ?r) = []"
    by (simp add: textRequest_def itemRequest_def combinedTextOf_def orEmpty_def trim_def
        units_def is_space_def)
  have n: "\<not> repeatOffender (request_context ?r)" "\<not> platformIs (request_context ?r) ''twitter''"
    "\<not> audienceIs (request_context ?r) ''children''"
    by (simp_all add: textRequest_def itemRequest_def repeatOffender_def platformIs_def
        audienceIs_def)
  show ?thesis using c n empty_combined_text [OF c] by blast
qed

text \<open>
  The claim C4 as stated fails for a text of white space only: the combined text is empty,
  but the analysis runs and the context adjustments apply.
\<close>

theorem empty_combined_text_counterexample:
  "combinedTextOf (request_content (textRequest (units '' '') (Some (flagsOnly 5)))) = [] \<and>
   isFlagged (analyzeContent (textRequest (units '' '') (Some (flagsOnly 5)))) \<and>
   confidence (analyzeContent (textRequest (units '' '') (Some (flagsOnly 5)))) = 2 / 5"
proof -
  let ?r = "textRequest (units '' '') (Some (flagsOnly 5))"
  have c: "combinedTextOf (request_content ?r) = []"
    by (simp add: textRequest_def itemRequest_def combinedTextOf_def orEmpty_def trim_def
        units_def is_space_def)
  have g: "\<not> (falsy (content_text (request_content ?r)) \<and> falsy (content_url (request_content ?r)))"
    by (simp add: textRequest_def itemRequest_def falsy_def units_def)
  have "\<forall>e \<in> set PATTERN_MAP. findPatternMatches [] (snd e) = []"
    by (simp add: entry_patterns empty_no_match)
  then have st: "scanResult (combinedTextOf (request_content ?r)) (request_context ?r) =
                   ([], 0, low)"
    unfolding c by (rule scanResult_no_hit)
  have "applyContextAdjustments 0 0 (request_context ?r) = 2 / 5"
    by (simp add: applyContextAdjustments_def repeatOffender_def platformIs_def audienceIs_def
        flagsOnly_def textRequest_def itemRequest_def)
  then show ?thesis using c by (simp add: analyze_scanned [OF g st])
qed

text \<open>
  C5. The text "My SSN is 123-45-6789 and my phone is 555-123-4567", with no url and no
  context, is flagged, has personal_information among its reasons, has severity high and a
  confidence above 0.8.
\<close>

theorem personal_information_example:
  assumes "content_text (request_content r) =
             Some (units ''My SSN is 123-45-6789 and my phone is 555-123-4567'')"
    and "content_url (request_content r) = None" and "request_context r = None"
  shows "isFlagged (analyzeContent r) \<and>
         personal_information \<in> set (reasons (analyzeContent r)) \<and>
         severity (analyzeContent r) = high \<and> 4 / 5 < confidence (analyzeContent r)"
proof -
  note c = text_only [OF assms(1,2) ssn_plain]
  have st: "scanResult (combinedTextOf (request_content r)) (request_context r) =
              ([personal_information, personal_information], 3 / 2, high)"
    by (simp add: c(1) assms(3) ssn_scan)
  show ?thesis
    by (simp add: analyze_scanned [OF c(2) st] assms(3) applyContextAdjustments_def
        repeatOffender_def platformIs_def audienceIs_def)
qed

theorem personal_information_example_witness:
  "content_text (request_content
     (textRequest (units ''My SSN is 123-45-6789 and my phone is 555-123-4567'') None)) =
     Some (units ''My SSN is 123-45-6789 and my phone is 555-123-4567'') \<and>
   content_url (request_content
     (textRequest (units ''My SSN is 123-45-6789 and my phone is 555-123-4567'') None)) = None \<and>
   request_context
     (textRequest (units ''My SSN is 123-45-6789 and my phone is 555-123-4567'') None) = None \<and>
   isFlagged (analyzeContent
     (textRequest (units ''My SSN is 123-45-6789 and my phone is 555-123-4567'') None)) \<and>
   personal_information \<in> set (reasons (analyzeContent
     (textRequest (units ''My SSN is 123-45-6789 and my phone is 555-123-4567'') None))) \<and>
   severity (analyzeContent
     (textRequest (units ''My SSN is 123-45-6789 and my phone is 555-123-4567'') None)) = high \<and>
   4 / 5 < confidence (analyzeContent
     (textRequest (units ''My SSN is 123-45-6789 and my phone is 555-123-4567'') None))"
proof -
  let ?r = "textRequest (units ''My SSN is 123-45-6789 and my phone is 555-123-4567'') None"
  have h: "content_text (request_content ?r) =
             Some (units ''My SSN is 123-45-6789 and my phone is 555-123-4567'')"
    "content_url (request_content ?r) = None" "request_context ?r = None"
    by (simp_all add: textRequest_def itemRequest_def)
  show ?thesis using h personal_information_example [OF h] by simp
qed

lemma kill_yourself_counts:
  "map (\<lambda>r. length (findPatternMatches (units ''You should kill yourself'') (patternsOf r)))
     [spam, hate_speech, harassment, violence, adult_content, misinformation, phishing,
      copyright_violation, malware, inappropriate_language, personal_information] =
   [0, 0, Suc (Suc 0), 0, 0, 0, 0, 0, 0, 0, 0]"
  by (simp add: catalog_defs, simp only: search_eval count_eval)

lemma kill_yourself_scan:
  "scanResult (units ''You should kill yourself'') None = ([harassment], 3 / 5, high)"
  using kill_yourself_counts
  by (simp add: scan_eval repeatOffender_def del: checkCategories.simps(2))

text \<open>
  C6. The severity of the harassment category is high for every per-category confidence;
  and the text "You should kill yourself", with no url and no context, is flagged, has
  harassment among its reasons and has severity high.
\<close>

theorem harassment_pinned_high:
  assumes "content_text (request_content r) = Some (units ''You should kill yourself'')"
    and "content_url (request_content r) = None" and "request_context r = None"
  shows "getSeverityForReason harassment c = high \<and>
         isFlagged (analyzeContent r) \<and> harassment \<in> set (reasons (analyzeContent r)) \<and>
         severity (analyzeContent r) = high"
proof -
  have t: "units ''You should kill yourself'' \<noteq> []"
    "\<not> is_space (hd (units ''You should kill yourself''))"
    "\<not> is_space (last (units ''You should kill yourself''))"
    by (simp_all add: units_def is_space_def)
  note c = text_only [OF assms(1,2) t]
  have st: "scanResult (combinedTextOf (request_content r)) (request_context r) =
              ([harassment], 3 / 5, high)"
    by (simp add: c(1) assms(3) kill_yourself_scan)
  show ?thesis
    by (simp add: analyze_scanned [OF c(2) st] severity_harassment)
qed

theorem harassment_pinned_high_witness:
  "content_text (request_content (textRequest (units ''You should kill yourself'') None)) =
     Some (units ''You should kill yourself'') \<and>
   content_url (request_content (textRequest (units ''You should kill yourself'') None)) = None \<and>
   request_context (textRequest (units ''You should kill yourself'') None) = None \<and>
   getSeverityForReason harassment 1 = high \<and>
   isFlagged (analyzeContent (textRequest (units ''You should kill yourself'') None)) \<and>
   harassment \<in> set (reasons (analyzeContent (textRequest (units ''You should kill yourself'') None))) \<and>
   severity (analyzeContent (textRequest (units ''You should kill yourself'') None)) = high"
proof -
  have h: "content_text (request_content (textRequest (units ''You should kill yourself'') None)) =
             Some (units ''You should kill yourself'')"
    "content_url (request_content (textRequest (units ''You should kill yourself'') None)) = None"
    "request_context (textRequest (units ''You should kill yourself'') None) = None"
    by (simp_all add: textRequest_def itemRequest_def)
  show ?thesis using h harassment_pinned_high [OF h, of 1] by simp
qed

text \<open>
  C7, amended. For every input in which the text or the url is a non-empty string and whose
  context has \<open>previousFlags > 3\<close>, the confidence of the result is at least 0.4.
\<close>

theorem repeat_offender_floor:
  assumes "request_context r = Some ctx" and "previousFlags ctx = Some n" and "3 < n"
    and "\<not> (falsy (content_text (request_content r)) \<and> falsy (content_url (request_content r)))"
  shows "2 / 5 \<le> confidence (analyzeContent r)"
proof -
  obtain rs c s where st:
    "scanResult (combinedTextOf (request_content r)) (request_context r) = (rs, c, s)"
    by (cases "scanResult (combinedTextOf (request_content r)) (request_context r)")
  have "repeatOffender (request_context r)"
    using assms(1-3) by (simp add: repeatOffender_def)
  then have "2 / 5 \<le> applyContextAdjustments c (length rs) (request_context r)"
    by (rule adjust_repeat)
  then show ?thesis
    by (simp add: analyze_scanned [OF assms(4) st])
qed

theorem repeat_offender_floor_witness:
  "request_context (textRequest (units ''hello'') (Some (flagsOnly 5))) = Some (flagsOnly 5) \<and>
   previousFlags (flagsOnly 5) = Some 5 \<and> (3::rat) < 5 \<and>
   \<not> (falsy (content_text (request_content (textRequest (units ''hello'') (Some (flagsOnly 5))))) \<and>
      falsy (content_url (request_content (textRequest (units ''hello'') (Some (flagsOnly 5)))))) \<and>
   2 / 5 \<le> confidence (analyzeContent (textRequest (units ''hello'') (Some (flagsOnly 5))))"
proof -
  let ?r = "textRequest (units ''hello'') (Some (flagsOnly 5))"
  have h: "request_context ?r = Some (flagsOnly 5)" "previousFlags (flagsOnly 5) = Some 5"
    "(3::rat) < 5"
    "\<not> (falsy (content_text (request_content ?r)) \<and> falsy (content_url (request_content ?r)))"
    by (simp_all add: textRequest_def itemRequest_def flagsOnly_def falsy_def units_def)
  show ?thesis using h repeat_offender_floor [OF h] by simp
qed

text \<open>
  The claim C7 as stated fails where the text and the url are both absent or empty: the
  clean result is returned before the context is read.
\<close>

theorem repeat_offender_floor_counterexample:
  "request_context (textRequest [] (Some (flagsOnly 5))) = Some (flagsOnly 5) \<and>
   previousFlags (flagsOnly 5) = Some 5 \<and>
   confidence (analyzeContent (textRequest [] (Some (flagsOnly 5)))) = 0"
proof -
  have "analyzeContent (textRequest [] (Some (flagsOnly 5))) = createCleanResult"
    by (rule analyze_clean) (simp_all add: textRequest_def itemRequest_def falsy_def)
  then show ?thesis
    by (simp add: createCleanResult_def textRequest_def itemRequest_def flagsOnly_def)
qed

text \<open>
  C8, amended. For every text that hits at least one spam rule and at least one harassment
  rule, the result has more than one reason, and its confidence is at least the sum of the
  confidences of the two categories alone plus the multiplicity bonus of 0.1 for each reason
  after the first, capped at 1. So it is at least the confidence of each of the two
  categories alone, and strictly greater than each one that is below the cap of 1.
\<close>

theorem multi_category_confidence:
  assumes "findPatternMatches (combinedTextOf (request_content r)) (patternsOf spam) \<noteq> []"
    and "findPatternMatches (combinedTextOf (request_content r)) (patternsOf harassment) \<noteq> []"
    and "cs = calculateConfidence
                (findPatternMatches (combinedTextOf (request_content r)) (patternsOf spam))
                (combinedTextOf (request_content r)) (request_context r)"
    and "ch = calculateConfidence
                (findPatternMatches (combinedTextOf (request_content r)) (patternsOf harassment))
                (combinedTextOf (request_content r)) (request_context r)"
  shows "1 < length (reasons (analyzeContent r)) \<and>
         min (cs + ch + 1 / 10 * of_nat (length (reasons (analyzeContent r)) - 1)) 1
           \<le> confidence (analyzeContent r) \<and>
         cs \<le> confidence (analyzeContent r) \<and> ch \<le> confidence (analyzeContent r) \<and>
         (cs < 1 \<longrightarrow> cs < confidence (analyzeContent r)) \<and>
         (ch < 1 \<longrightarrow> ch < confidence (analyzeContent r))"
proof -
  have b: "min (cs + ch + 1 / 10 * of_nat (length (reasons (analyzeContent r)) - 1)) 1
           \<le> confidence (analyzeContent r)"
    unfolding assms(3,4) using assms(1,2) by (rule spam_harassment_bonus)
  have l: "1 < length (reasons (analyzeContent r))"
    using assms(1,2) by (rule spam_harassment_confidence)
  have m: "min (cs + ch + 1 / 10) 1 \<le> confidence (analyzeContent r)"
    unfolding assms(3,4) using assms(1,2) by (rule spam_harassment_confidence)
  have "1 / 10 \<le> cs" unfolding assms(3) using assms(1) by (rule calculateConfidence_hit)
  moreover have "1 / 10 \<le> ch" unfolding assms(4) using assms(2) by (rule calculateConfidence_hit)
  moreover have "cs \<le> 1" unfolding assms(3) by (rule calculateConfidence_le_1)
  moreover have "ch \<le> 1" unfolding assms(4) by (rule calculateConfidence_le_1)
  ultimately have "cs \<le> confidence (analyzeContent r) \<and> ch \<le> confidence (analyzeContent r) \<and>
         (cs < 1 \<longrightarrow> cs < confidence (analyzeContent r)) \<and>
         (ch < 1 \<longrightarrow> ch < confidence (analyzeContent r))"
    using m by (simp add: min_def split: if_splits)
  then show ?thesis using b l by simp
qed

lemma act_now_die_counts:
  "map (\<lambda>r. length (findPatternMatches (units ''act now die'') (patternsOf r)))
     [spam, harassment] = [Suc 0, Suc 0]"
  by (simp add: catalog_defs, simp only: search_eval count_eval)

theorem multi_category_confidence_witness:
  "findPatternMatches (combinedTextOf (request_content (textRequest (units ''act now die'') None)))
     (patternsOf spam) \<noteq> [] \<and>
   findPatternMatches (combinedTextOf (request_content (textRequest (units ''act now die'') None)))
     (patternsOf harassment) \<noteq> [] \<and>
   1 < length (reasons (analyzeContent (textRequest (units ''act now die'') None))) \<and>
   min (calculateConfidence
          (findPatternMatches
             (combinedTextOf (request_content (textRequest (units ''act now die'') None)))
             (patternsOf spam))
          (combinedTextOf (request_content (textRequest (units ''act now die'') None)))
          (request_context (textRequest (units ''act now die'') None)) +
        calculateConfidence
          (findPatternMatches
             (combinedTextOf (request_content (textRequest (units ''act now die'') None)))
             (patternsOf harassment))
          (combinedTextOf (request_content (textRequest (units ''act now die'') None)))
          (request_context (textRequest (units ''act now die'') None)) +
        1 / 10 *
        of_nat (length (reasons (analyzeContent (textRequest (units ''act now die'') None))) - 1))
     1
   \<le> confidence (analyzeContent (textRequest (units ''act now die'') None)) \<and>
   calculateConfidence
     (findPatternMatches
        (combinedTextOf (request_content (textRequest (units ''act now die'') None)))
        (patternsOf spam))
     (combinedTextOf (request_content (textRequest (units ''act now die'') None)))
     (request_context (textRequest (units ''act now die'') None))
   < confidence (analyzeContent (textRequest (units ''act now die'') None)) \<and>
   calculateConfidence
     (findPatternMatches
        (combinedTextOf (request_content (textRequest (units ''act now die'') None)))
        (patternsOf harassment))
     (combinedTextOf (request_content (textRequest (units ''act now die'') None)))
     (request_context (textRequest (units ''act now die'') None))
   < confidence (analyzeContent (textRequest (units ''act now die'') None))"
proof -
  let ?t = "units ''act now die''"
  let ?r = "textRequest ?t None"
  have h: "content_text (request_content ?r) = Some ?t" "content_url (request_content ?r) = None"
    "request_context ?r = None"
    by (simp_all add: textRequest_def itemRequest_def)
  have p: "?t \<noteq> []" "\<not> is_space (hd ?t)" "\<not> is_space (last ?t)"
    by (simp_all add: units_def is_space_def)
  note c = text_only [OF h(1,2) p]
  have n: "length (findPatternMatches ?t (patternsOf spam)) = Suc 0"
    "length (findPatternMatches ?t (patternsOf harassment)) = Suc 0"
    using act_now_die_counts by simp_all
  have sp: "findPatternMatches (combinedTextOf (request_content ?r)) (patternsOf spam) \<noteq> []"
    and ha: "findPatternMatches (combinedTextOf (request_content ?r)) (patternsOf harassment) \<noteq> []"
    using n by (auto simp add: c(1))
  have cs: "calculateConfidence
      (findPatternMatches (combinedTextOf (request_content ?r)) (patternsOf spam))
      (combinedTextOf (request_content ?r)) (request_context ?r) < 1"
    and ch: "calculateConfidence
      (findPatternMatches (combinedTextOf (request_content ?r)) (patternsOf harassment))
      (combinedTextOf (request_content ?r)) (request_context ?r) < 1"
    by (simp_all add: c(1) h(3) calculateConfidence_def n length_units repeatOffender_def)
  show ?thesis
    using sp ha cs ch multi_category_confidence [OF sp ha refl refl] by blast
qed

lemma cap_spam_count:
  "length (findPatternMatches (units ''act now no risk bit.ly tinyurl die'') (patternsOf spam)) =
   Suc (Suc (Suc (Suc 0)))"
  by (simp add: catalog_defs, simp only: search_eval count_eval)

text \<open>
  The claim C8 as stated fails at the cap: a short text that hits four spam rules has the
  spam confidence 1 on its own, and the confidence of the result, capped at 1, is not greater.
\<close>

theorem multi_category_confidence_counterexample:
  "findPatternMatches
     (combinedTextOf (request_content
        (textRequest (units ''act now no risk bit.ly tinyurl die'') None)))
     (patternsOf spam) \<noteq> [] \<and>
   findPatternMatches
     (combinedTextOf (request_content
        (textRequest (units ''act now no risk bit.ly tinyurl die'') None)))
     (patternsOf harassment) \<noteq> [] \<and>
   calculateConfidence
     (findPatternMatches
        (combinedTextOf (request_content
           (textRequest (units ''act now no risk bit.ly tinyurl die'') None)))
        (patternsOf spam))
     (combinedTextOf (request_content
        (textRequest (units ''act now no risk bit.ly tinyurl die'') None)))
     (request_context (textRequest (units ''act now no risk bit.ly tinyurl die'') None)) = 1 \<and>
   confidence (analyzeContent
     (textRequest (units ''act now no risk bit.ly tinyurl die'') None)) = 1"
proof -
  let ?t = "units ''act now no risk bit.ly tinyurl die''"
  let ?r = "textRequest ?t None"
  have h: "content_text (request_content ?r) = Some ?t" "content_url (request_content ?r) = None"
    "request_context ?r = None"
    by (simp_all add: textRequest_def itemRequest_def)
  have p: "?t \<noteq> []" "\<not> is_space (hd ?t)" "\<not> is_space (last ?t)"
    by (simp_all add: units_def is_space_def)
  note c = text_only [OF h(1,2) p]
  have sp: "findPatternMatches ?t (patternsOf spam) \<noteq> []"
    using cap_spam_count by auto
  have "?t = units ''act now no risk bit.ly tinyurl '' @ units ''die'' @ []"
    by (simp add: units_def)
  then have ha: "findPatternMatches ?t (patternsOf harassment) \<noteq> []"
    using die_hits_harassment [of "units ''act now no risk bit.ly tinyurl ''" "[]"] by simp
  have cs: "calculateConfidence (findPatternMatches ?t (patternsOf spam)) ?t None = 1"
    by (simp add: calculateConfidence_def cap_spam_count length_units repeatOffender_def)
  have "1 / 10 \<le> calculateConfidence (findPatternMatches ?t (patternsOf harassment)) ?t None"
    using ha by (rule calculateConfidence_hit)
  moreover have "min (calculateConfidence (findPatternMatches ?t (patternsOf spam)) ?t None +
          calculateConfidence (findPatternMatches ?t (patternsOf harassment)) ?t None + 1 / 10) 1
        \<le> confidence (analyzeContent ?r)"
    using spam_harassment_confidence(2) [of ?r] sp ha by (simp add: c(1) h(3))
  ultimately have lo: "1 \<le> confidence (analyzeContent ?r)" by (simp add: cs min_def)
  obtain rs c0 s where st:
    "scanResult (combinedTextOf (request_content ?r)) (request_context ?r) = (rs, c0, s)"
    by (cases "scanResult (combinedTextOf (request_content ?r)) (request_context ?r)")
  have "confidence (analyzeContent ?r) \<le> 1"
    by (simp add: analyze_scanned [OF c(2) st] adjust_le_1)
  then have "confidence (analyzeContent ?r) = 1" using lo by simp
  then show ?thesis using sp ha cs by (simp add: c(1) h(3))
qed

text \<open>
  C9, amended. The details field is present exactly when the text or the url is a non-empty
  string. It is then "Content appears to be clean" when the reasons are empty, and
  otherwise "Detected ", the reasons joined by ", ", " with ", the confidence times 100
  rounded, and "% confidence". When the text and the url are both absent or empty, the
  result has no details field.
\<close>

theorem details_summary:
  "details (analyzeContent r) =
     (if falsy (content_text (request_content r)) \<and> falsy (content_url (request_content r))
      then None
      else Some (if reasons (analyzeContent r) = [] then ''Content appears to be clean''
                 else ''Detected '' @ join '', '' (map reasonName (reasons (analyzeContent r))) @
                      '' with '' @ show_int (math_round (confidence (analyzeContent r) * 100)) @
                      ''% confidence''))"
proof (cases "falsy (content_text (request_content r)) \<and> falsy (content_url (request_content r))")
  case True
  then show ?thesis by (simp add: analyze_clean createCleanResult_def)
next
  case False
  obtain rs c s where st:
    "scanResult (combinedTextOf (request_content r)) (request_context r) = (rs, c, s)"
    by (cases "scanResult (combinedTextOf (request_content r)) (request_context r)")
  show ?thesis
    using False by (simp add: analyze_scanned [OF False st] generateDetails_def Let_def)
qed

lemma die_counts:
  "map (\<lambda>r. length (findPatternMatches (units ''die'') (patternsOf r)))
     [spam, hate_speech, harassment, violence, adult_content, misinformation, phishing,
      copyright_violation, malware, inappropriate_language, personal_information] =
   [0, 0, Suc 0, 0, 0, 0, 0, 0, 0, 0, 0]"
  by (simp add: catalog_defs, simp only: search_eval count_eval)

lemma die_scan: "scanResult (units ''die'') None = ([harassment], 2 / 5, high)"
  using die_counts
  by (simp add: scan_eval repeatOffender_def del: checkCategories.simps(2))

theorem details_summary_witness:
  "\<not> (falsy (content_text (request_content (textRequest (units ''die'') None))) \<and>
      falsy (content_url (request_content (textRequest (units ''die'') None)))) \<and>
   details (analyzeContent (textRequest (units ''die'') None)) =
     Some ''Detected harassment with 40% confidence''"
proof -
  let ?r = "textRequest (units ''die'') None"
  have h: "content_text (request_content ?r) = Some (units ''die'')"
    "content_url (request_content ?r) = None" "request_context ?r = None"
    by (simp_all add: textRequest_def itemRequest_def)
  have p: "units ''die'' \<noteq> []" "\<not> is_space (hd (units ''die''))"
    "\<not> is_space (last (units ''die''))"
    by (simp_all add: units_def is_space_def)
  note c = text_only [OF h(1,2) p]
  have st: "scanResult (combinedTextOf (request_content ?r)) (request_context ?r) =
              ([harassment], 2 / 5, high)"
    by (simp add: c(1) h(3) die_scan)
  have v: "reasons (analyzeContent ?r) = [harassment]" "confidence (analyzeContent ?r) = 2 / 5"
    by (simp_all add: analyze_scanned [OF c(2) st] h(3) applyContextAdjustments_def
        repeatOffender_def platformIs_def audienceIs_def)
  have "math_round 40 = 40" by (simp add: math_round_def floor_eq_iff)
  moreover have "show_int 40 = ''40''"
    by (simp add: show_int_def show_nat.simps [of 40] show_nat.simps [of 4])
  ultimately show ?thesis using c(2) details_summary [of ?r] by (simp add: v)
qed

text \<open>
  The claim C9 as stated fails where the text and the url are both absent: the clean
  result has no details field.
\<close>

theorem details_summary_counterexample:
  "details (analyzeContent (itemRequest None None None)) = None"
proof -
  have "analyzeContent (itemRequest None None None) = createCleanResult"
    by (rule analyze_clean) (simp_all add: itemRequest_def falsy_def)
  then show ?thesis by (simp add: createCleanResult_def)
qed

text \<open>
  C10. For every input whose combined text contains "die" anywhere, the result is
  flagged, harassment is among the reasons and the severity is at least high.
\<close>

theorem die_flags_harassment:
  assumes "combinedTextOf (request_content r) = pre @ units ''die'' @ suf"
  shows "isFlagged (analyzeContent r) \<and> harassment \<in> set (reasons (analyzeContent r)) \<and>
         severityIndex high \<le> severityIndex (severity (analyzeContent r))"
proof -
  let ?t = "combinedTextOf (request_content r)"
  have hit: "findPatternMatches ?t (patternsOf harassment) \<noteq> []"
    unfolding assms by (rule die_hits_harassment)
  have "?t \<noteq> []" unfolding assms by (simp add: units_def)
  then have g: "\<not> (falsy (content_text (request_content r)) \<and>
                   falsy (content_url (request_content r)))"
    using combined_of_falsy by blast
  obtain rs c s where st: "scanResult ?t (request_context r) = (rs, c, s)"
    by (cases "scanResult ?t (request_context r)")
  have r: "harassment \<in> set rs"
    using scanResult_reason_hit [OF hit, of "request_context r"] st by simp
  have "severityIndex high \<le> severityIndex s"
    using scanResult_severity_hit [OF hit, of "request_context r"] st
    by (simp add: severity_harassment)
  then show ?thesis using r by (auto simp add: analyze_scanned [OF g st])
qed

theorem die_flags_harassment_witness:
  "combinedTextOf (request_content (textRequest (units ''soldier'') None)) =
     units ''sol'' @ units ''die'' @ units ''r'' \<and>
   isFlagged (analyzeContent (textRequest (units ''soldier'') None)) \<and>
   harassment \<in> set (reasons (analyzeContent (textRequest (units ''soldier'') None))) \<and>
   severityIndex high \<le> severityIndex (severity (analyzeContent (textRequest (units ''soldier'') None)))"
proof -
  let ?r = "textRequest (units ''soldier'') None"
  have h: "content_text (request_content ?r) = Some (units ''soldier'')"
    "content_url (request_content ?r) = None"
    by (simp_all add: textRequest_def itemRequest_def)
  have p: "units ''soldier'' \<noteq> []" "\<not> is_space (hd (units ''soldier''))"
    "\<not> is_space (last (units ''soldier''))"
    by (simp_all add: units_def is_space_def)
  have "combinedTextOf (request_content ?r) = units ''soldier''"
    by (rule text_only [OF h p])
  then have c: "combinedTextOf (request_content ?r) = units ''sol'' @ units ''die'' @ units ''r''"
    by (simp add: units_def)
  show ?thesis using c die_flags_harassment [OF c] by simp
qed

end
